theory Spec2Isabelle
  imports Main "HOL-Library.AList"
begin

section \<open>Strings of the Go library, as the program uses them\<close>

text \<open>
  A Go string is a sequence of bytes: \<open>string\<close> here. The program converts case with
  \<open>strings.ToLower\<close> and \<open>http.CanonicalHeaderKey\<close>. Both are functions of the Go
  library and not of this repository; they are modelled on bytes as the library has them.
  \<open>http.CanonicalHeaderKey\<close> is \<open>textproto.CanonicalMIMEHeaderKey\<close>: a key that
  holds a byte that is not valid in a header field name (a space, a byte from 128 on, any
  byte outside the token characters) is returned unchanged; in any other key the first
  letter and every letter after a hyphen become upper case and every other letter lower
  case. This is the library since Go 1.6; the library before it rewrote every key and
  turned a space into a hyphen, and agrees with this one on the keys made of valid bytes.
\<close>

definition isLowerAscii :: "char \<Rightarrow> bool" where
  "isLowerAscii c = (97 \<le> (of_char c :: nat) \<and> (of_char c :: nat) \<le> 122)"

definition isUpperAscii :: "char \<Rightarrow> bool" where
  "isUpperAscii c = (65 \<le> (of_char c :: nat) \<and> (of_char c :: nat) \<le> 90)"

definition upperByte :: "char \<Rightarrow> char" where
  "upperByte c = (if isLowerAscii c then char_of ((of_char c :: nat) - 32) else c)"

definition lowerByte :: "char \<Rightarrow> char" where
  "lowerByte c = (if isUpperAscii c then char_of ((of_char c :: nat) + 32) else c)"

definition isASCII :: "char \<Rightarrow> bool" where
  "isASCII c = ((of_char c :: nat) < 128)"

text \<open>
  The bytes of a header field name, \<open>validHeaderFieldByte\<close> of \<open>net/textproto\<close>:
  the letters, the digits and the characters \<open>!#$%&'*+-.^_`|~\<close>.
\<close>

definition validHeaderFieldByte :: "char \<Rightarrow> bool" where
  "validHeaderFieldByte c =
     (isLowerAscii c \<or> isUpperAscii c
      \<or> (48 \<le> (of_char c :: nat) \<and> (of_char c :: nat) \<le> 57)
      \<or> (of_char c :: nat) \<in> set [33, 35, 36, 37, 38, 39, 42, 43, 45, 46, 94, 95, 96, 124, 126])"

definition HasPrefix :: "string \<Rightarrow> string \<Rightarrow> bool" where
  "HasPrefix s prefix = (length prefix \<le> length s \<and> take (length prefix) s = prefix)"

text \<open>
  The rewriting loop of \<open>canonicalMIMEHeaderKey\<close>: \<open>upper\<close> says whether the next
  letter starts a word.
\<close>

fun canonicalMIMEHeaderKey_loop :: "bool \<Rightarrow> string \<Rightarrow> string" where
  "canonicalMIMEHeaderKey_loop upper [] = []"
| "canonicalMIMEHeaderKey_loop upper (v # a) =
     (if upper \<and> isLowerAscii v then upperByte v
      else if \<not> upper \<and> isUpperAscii v then lowerByte v
      else v) # canonicalMIMEHeaderKey_loop (v = CHR ''-'') a"

text \<open>
  \<open>canonicalMIMEHeaderKey\<close> first looks at every byte: a key that does not look like a
  header key is returned as it is, and only a key of valid bytes is rewritten.
\<close>

definition canonicalMIMEHeaderKey :: "string \<Rightarrow> string" where
  "canonicalMIMEHeaderKey a =
     (if list_all validHeaderFieldByte a then canonicalMIMEHeaderKey_loop True a else a)"

definition CanonicalHeaderKey :: "string \<Rightarrow> string" where
  "CanonicalHeaderKey s = canonicalMIMEHeaderKey s"

text \<open>Decimal printing, the \<open>%d\<close> of \<open>fmt.Sprintf\<close>.\<close>

fun natstr :: "nat \<Rightarrow> string" where
  "natstr n = (if n < 10 then [char_of (48 + n)]
               else natstr (n div 10) @ [char_of (48 + n mod 10)])"

declare natstr.simps [simp del]

definition Itoa :: "int \<Rightarrow> string" where
  "Itoa i = (if i < 0 then CHR ''-'' # natstr (nat (- i)) else natstr (nat i))"

text \<open>
  Lower-case hexadecimal printing of a byte string, the \<open>%x\<close> of \<open>fmt.Sprintf\<close>.
\<close>

definition hexdigit :: "nat \<Rightarrow> char" where
  "hexdigit n = (if n < 10 then char_of (48 + n) else char_of (87 + n))"

definition hex :: "string \<Rightarrow> string" where
  "hex s = concat (map (\<lambda>c. [hexdigit ((of_char c :: nat) div 16),
                               hexdigit ((of_char c :: nat) mod 16)]) s)"

section \<open>Errors\<close>

text \<open>
  \<open>Error\<close> is the error type of the package (status code and text). \<open>Foreign\<close> stands for
  an error passed on from a library function (transport, \<open>Close\<close>, \<open>io.Copy\<close>), with its
  message.
\<close>

datatype error = Error int string | Foreign string

definition newError :: "int \<Rightarrow> string \<Rightarrow> error" where
  "newError StatusCode Text = Error StatusCode Text"

fun errStatusCode :: "error \<Rightarrow> int option" where
  "errStatusCode (Error sc t) = Some sc"
| "errStatusCode (Foreign m) = None"

fun errText :: "error \<Rightarrow> string" where
  "errText (Error sc t) = t"
| "errText (Foreign m) = m"

type_synonym errorMap = "int \<rightharpoonup> error"

definition AuthorizationFailed :: error where
  "AuthorizationFailed = newError 401 ''Authorization Failed''"

definition ContainerNotFound :: error where
  "ContainerNotFound = newError 404 ''Container Not Found''"

definition ContainerNotEmpty :: error where
  "ContainerNotEmpty = newError 409 ''Container Not Empty''"

definition ObjectNotFound :: error where
  "ObjectNotFound = newError 404 ''Object Not Found''"

definition ObjectCorrupted :: error where
  "ObjectCorrupted = newError 422 ''Object Corrupted''"

definition authErrorMap :: errorMap where
  "authErrorMap = [401 \<mapsto> AuthorizationFailed]"

definition containerErrorMap :: errorMap where
  "containerErrorMap = [404 \<mapsto> ContainerNotFound, 409 \<mapsto> ContainerNotEmpty]"

definition objectErrorMap :: errorMap where
  "objectErrorMap = [404 \<mapsto> ObjectNotFound, 422 \<mapsto> ObjectCorrupted]"

section \<open>HTTP messages\<close>

text \<open>
  \<open>http.Header\<close> is a Go map from a key to its list of values. A map has one entry for a
  key and \<open>range\<close> visits the entries in an order the runtime chooses, so a Go map is an
  association list here: its order is the order of that visit, and a store \<open>m[k] = v\<close> is
  \<open>AList.update\<close>. \<open>net/http\<close> makes an entry only by appending a value, so the list of
  values of an entry is never empty: an entry carries its first value and the further ones.
\<close>

type_synonym http_Header = "(string \<times> string \<times> string list) list"

definition Header_Get :: "http_Header \<Rightarrow> string \<Rightarrow> string" where
  "Header_Get h key =
     (case map_of h (CanonicalHeaderKey key) of None \<Rightarrow> '''' | Some (v, vs) \<Rightarrow> v)"

definition Header_Add :: "http_Header \<Rightarrow> string \<Rightarrow> string \<Rightarrow> http_Header" where
  "Header_Add h key val =
     (let k = CanonicalHeaderKey key
      in case map_of h k of
           None \<Rightarrow> AList.update k (val, []) h
         | Some (v, vs) \<Rightarrow> AList.update k (v, vs @ [val]) h)"

definition Header_Set :: "http_Header \<Rightarrow> string \<Rightarrow> string \<Rightarrow> http_Header" where
  "Header_Set h key val = AList.update (CanonicalHeaderKey key) (val, []) h"

definition Header_values :: "http_Header \<Rightarrow> string \<Rightarrow> string list" where
  "Header_values h k = (case map_of h k of None \<Rightarrow> [] | Some (v, vs) \<Rightarrow> v # vs)"

text \<open>
  The body of a response is a stream: the chunks its reads give, the error that ends them
  (\<open>None\<close> for a clean end of file), the result of \<open>Close\<close>, and the identity \<open>bid\<close> of
  the stream, which the transport assigns.
\<close>

record body =
  chunks :: "string list"
  rerr :: "error option"
  cerr :: "error option"
  bid :: nat

record response =
  StatusCode :: int
  Status :: string
  Header :: http_Header
  Body :: body

text \<open>
  An \<open>io.Reader\<close> handed in as a request body: the bytes not read yet, and for an
  \<open>io.TeeReader\<close> the bytes it has passed on to the hash so far.
\<close>

datatype reader = Reader string | TeeReader string string

fun consume :: "nat \<Rightarrow> reader \<Rightarrow> reader" where
  "consume n (Reader s) = Reader (drop n s)"
| "consume n (TeeReader s h) = TeeReader (drop n s) (h @ take n s)"

fun hashed :: "reader option \<Rightarrow> string" where
  "hashed (Some (TeeReader s h)) = h"
| "hashed _ = ''''"

record request =
  reqMethod :: string
  reqURL :: string
  reqHeader :: http_Header
  reqBody :: "reader option"

section \<open>Classification of a response\<close>

definition parseHeaders :: "response \<Rightarrow> errorMap option \<Rightarrow> error option" where
  "parseHeaders resp errorMap =
     (case (case errorMap of None \<Rightarrow> None | Some m \<Rightarrow> m (StatusCode resp)) of
        Some err \<Rightarrow> Some err
      | None \<Rightarrow>
          if StatusCode resp < 200 \<or> StatusCode resp > 299
          then Some (newError (StatusCode resp)
                 (''HTTP Error: '' @ Itoa (StatusCode resp) @ '': '' @ Status resp))
          else None)"

section \<open>The library\<close>

text \<open>
  What the program takes from the Go library without defining it is a parameter of the
  model: the error of \<open>http.NewRequest\<close> for a method and a URL (\<open>None\<close> when the
  request is built), \<open>url.Values.Encode\<close>, the MD5 digest of a byte string,
  \<open>strconv.Quote\<close>, and \<open>strings.Map(unicode.ToLower, s)\<close>, the lower-casing of
  the letters of Unicode in a string that holds bytes beyond ASCII.
\<close>

record stdlib =
  newRequestErr :: "string \<Rightarrow> string \<Rightarrow> error option"
  Encode :: "(string \<times> string list) list \<Rightarrow> string"
  md5sum :: "string \<Rightarrow> string"
  Quote :: "string \<Rightarrow> string"
  Map_ToLower :: "string \<Rightarrow> string"

text \<open>
  \<open>strings.ToLower\<close>: on a string of ASCII bytes the letters \<open>A\<close> to \<open>Z\<close> are
  lower-cased byte by byte; any other string goes through the tables of Unicode.
\<close>

definition ToLower :: "stdlib \<Rightarrow> string \<Rightarrow> string" where
  "ToLower L s = (if list_all isASCII s then map lowerByte s else Map_ToLower L s)"

section \<open>Headers and metadata\<close>

type_synonym Headers = "(string \<times> string) list"

type_synonym Metadata = "(string \<times> string) list"

definition readHeaders :: "response \<Rightarrow> Headers" where
  "readHeaders resp =
     fold (\<lambda>(key, v, vs) headers. AList.update key v headers) (Header resp) []"

definition Headers_Metadata :: "stdlib \<Rightarrow> Headers \<Rightarrow> string \<Rightarrow> Metadata" where
  "Headers_Metadata L h metaPrefix =
     (let metaPrefix = CanonicalHeaderKey metaPrefix
      in fold (\<lambda>(key, val) m.
                 if HasPrefix key metaPrefix
                 then AList.update (ToLower L (drop (length metaPrefix) key)) val m
                 else m) h [])"

definition Metadata_Headers :: "Metadata \<Rightarrow> string \<Rightarrow> Headers" where
  "Metadata_Headers m metaPrefix =
     fold (\<lambda>(key, val) h. AList.update (CanonicalHeaderKey (metaPrefix @ key)) val h) m []"

section \<open>The transport\<close>

text \<open>
  The server and the network are the world. The program is sequential, so a behaviour of
  the transport on one run is the list of its answers to the successive calls of
  \<open>client.Do\<close>: \<open>script\<close>, each answer with the number of bytes of the request body
  that the transport reads before it answers. \<open>served\<close> counts the calls, and \<open>log\<close>
  records, in order, what the program did to the world.
\<close>

datatype event = Sent request | BodyRead nat | BodyClosed nat | IdleClosed

type_synonym exchange = "nat \<times> (error + response)"

record world =
  script :: "exchange list"
  served :: nat
  log :: "event list"

definition emit :: "event \<Rightarrow> world \<Rightarrow> world" where
  "emit e w = w\<lparr>log := log w @ [e]\<rparr>"

definition NewRequest :: "stdlib \<Rightarrow> string \<Rightarrow> string \<Rightarrow> reader option \<Rightarrow> error + request" where
  "NewRequest L method url rd =
     (case newRequestErr L method url of
        Some e \<Rightarrow> Inl e
      | None \<Rightarrow> Inr \<lparr>reqMethod = method, reqURL = url, reqHeader = [], reqBody = rd\<rparr>)"

definition client_Do :: "world \<Rightarrow> request \<Rightarrow> (error + response) \<times> reader option \<times> world" where
  "client_Do w req =
     (let w' = emit (Sent req) (w\<lparr>served := served w + 1\<rparr>)
      in case script w of
           [] \<Rightarrow> (Inl (Foreign ''transport: no answer''), reqBody req, w')
         | (n, a) # rest \<Rightarrow>
             (case a of
                Inl e \<Rightarrow> Inl e
              | Inr resp \<Rightarrow> Inr (resp\<lparr>Body := (Body resp)\<lparr>bid := served w\<rparr>\<rparr>),
              map_option (consume n) (reqBody req),
              w'\<lparr>script := rest\<rparr>))"

definition body_Close :: "body \<Rightarrow> world \<Rightarrow> error option \<times> world" where
  "body_Close b w = (cerr b, emit (BodyClosed (bid b)) w)"

definition CloseIdleConnections :: "world \<Rightarrow> world" where
  "CloseIdleConnections w = emit IdleClosed w"

definition checkClose :: "body \<Rightarrow> error option \<Rightarrow> world \<Rightarrow> error option \<times> world" where
  "checkClose b err w =
     (case body_Close b w of (ce, w') \<Rightarrow> (if err = None then ce else err, w'))"

section \<open>The connection and its session\<close>

text \<open>
  The fields \<open>tr\<close> and \<open>client\<close> of the connection are the handle on the world;
  \<open>Authenticate\<close> creates them before any use, and they carry no other state.
\<close>

record Connection =
  UserName :: string
  ApiKey :: string
  AuthUrl :: string
  Retries :: int
  UserAgent :: string
  storageUrl :: string
  authToken :: string

definition DefaultUserAgent :: string where
  "DefaultUserAgent = ''goswift/1.0''"

definition DefaultRetries :: int where
  "DefaultRetries = 3"

definition Authenticated :: "Connection \<Rightarrow> bool" where
  "Authenticated c = (storageUrl c \<noteq> '''' \<and> authToken c \<noteq> '''')"

definition UnAuthenticate :: "Connection \<Rightarrow> Connection" where
  "UnAuthenticate c = c\<lparr>storageUrl := '''', authToken := ''''\<rparr>"

text \<open>
  The deferred function of \<open>Authenticate\<close>: close the body, keep the first error, flush
  the idle connections.
\<close>

definition Authenticate_deferred ::
  "response \<Rightarrow> error option \<Rightarrow> Connection \<Rightarrow> world \<Rightarrow> error option \<times> Connection \<times> world" where
  "Authenticate_deferred resp err c w =
     (case checkClose (Body resp) err w of
        (err', w') \<Rightarrow> (err', c, CloseIdleConnections w'))"

definition Authenticate_request :: "Connection \<Rightarrow> request \<Rightarrow> request" where
  "Authenticate_request c req =
     req\<lparr>reqHeader :=
       Header_Set (Header_Set (Header_Set (reqHeader req)
         ''User-Agent'' (UserAgent c)) ''X-Auth-Key'' (ApiKey c)) ''X-Auth-User'' (UserName c)\<rparr>"

definition Authenticate :: "stdlib \<Rightarrow> Connection \<Rightarrow> world \<Rightarrow> error option \<times> Connection \<times> world" where
  "Authenticate L c0 w0 =
     (let c1 = (if UserAgent c0 = '''' then c0\<lparr>UserAgent := DefaultUserAgent\<rparr> else c0);
          c = (if Retries c1 = 0 then c1\<lparr>Retries := DefaultRetries\<rparr> else c1);
          w = CloseIdleConnections w0
      in case NewRequest L ''GET'' (AuthUrl c) None of
           Inl e \<Rightarrow> (Some e, c, w)
         | Inr req \<Rightarrow>
             (case client_Do w (Authenticate_request c req) of
                (Inl e, rd, w') \<Rightarrow> (Some e, c, w')
              | (Inr resp, rd, w') \<Rightarrow>
                  (case parseHeaders resp (Some authErrorMap) of
                     Some e \<Rightarrow> Authenticate_deferred resp (Some e) c w'
                   | None \<Rightarrow>
                       let c' = c\<lparr>storageUrl := Header_Get (Header resp) ''X-Storage-Url'',
                                   authToken := Header_Get (Header resp) ''X-Auth-Token''\<rparr>
                       in if \<not> Authenticated c'
                          then Authenticate_deferred resp
                                 (Some (newError 0 ''Response didn't have storage url and auth token''))
                                 c' w'
                          else Authenticate_deferred resp None c' w')))"

section \<open>The dispatcher\<close>

text \<open>
  \<open>headers\<close> that is \<open>nil\<close> is the empty list: \<open>range\<close> over a nil map visits nothing,
  which is what the test \<open>p.headers != nil\<close> guards. \<open>body\<close> is the state of the reader
  when the call starts.
\<close>

record storageOpts =
  container :: string
  objectName :: string
  operation :: string
  parameters :: "(string \<times> string list) list option"
  headers :: Headers
  errorMap :: "errorMap option"
  noResponse :: bool
  body :: "reader option"
  retries :: int

definition storage_url :: "stdlib \<Rightarrow> Connection \<Rightarrow> storageOpts \<Rightarrow> string" where
  "storage_url L c p =
     (let url = storageUrl c;
          url = (if container p \<noteq> ''''
                 then (url @ ''/'' @ container p) @
                      (if objectName p \<noteq> '''' then ''/'' @ objectName p else '''')
                 else url)
      in case parameters p of
           None \<Rightarrow> url
         | Some v \<Rightarrow> (let encoded = Encode L v
                      in if encoded \<noteq> '''' then url @ ''?'' @ encoded else url))"

definition storage_headers :: "Connection \<Rightarrow> storageOpts \<Rightarrow> http_Header \<Rightarrow> http_Header" where
  "storage_headers c p h0 =
     Header_Add
       (Header_Add (fold (\<lambda>(k, v) h. Header_Add h k v) (headers p) h0)
          ''User-Agent'' DefaultUserAgent)
       ''X-Auth-Token'' (authToken c)"

text \<open>
  One turn of the loop of \<open>storage\<close>, up to the answer of the transport. \<open>Inl\<close> is a
  return from inside the loop, with the values of the named results \<open>resp\<close> and \<open>err\<close>;
  \<open>Inr\<close> is the response received.
\<close>

type_synonym storage_state = "Connection \<times> world \<times> reader option"

definition storage_attempt ::
  "stdlib \<Rightarrow> storageOpts \<Rightarrow> response option \<Rightarrow> Connection \<Rightarrow> world \<Rightarrow> reader option \<Rightarrow>
   (response option \<times> error \<times> storage_state) + (response \<times> storage_state)" where
  "storage_attempt L p resp c w rd =
     (case (if \<not> Authenticated c then Authenticate L c w else (None, c, w)) of
        (Some e, c1, w1) \<Rightarrow> Inl (resp, e, c1, w1, rd)
      | (None, c1, w1) \<Rightarrow>
          (case NewRequest L (operation p) (storage_url L c1 p) rd of
             Inl e \<Rightarrow> Inl (resp, e, c1, w1, rd)
           | Inr req \<Rightarrow>
               (case client_Do w1 (req\<lparr>reqHeader := storage_headers c1 p (reqHeader req)\<rparr>) of
                  (Inl e, rd2, w2) \<Rightarrow> Inl (None, e, c1, w2, rd2)
                | (Inr resp', rd2, w2) \<Rightarrow> Inr (resp', c1, w2, rd2))))"

function storage_loop ::
  "stdlib \<Rightarrow> storageOpts \<Rightarrow> int \<Rightarrow> response option \<Rightarrow> Connection \<Rightarrow> world \<Rightarrow> reader option \<Rightarrow>
   (response option \<times> error \<times> storage_state) + (response \<times> storage_state)" where
  "storage_loop L p n resp c w rd =
     (case storage_attempt L p resp c w rd of
        Inl out \<Rightarrow> Inl out
      | Inr (resp', c1, w1, rd1) \<Rightarrow>
          if StatusCode resp' = 401 \<and> n > 0
          then storage_loop L p (n - 1) (Some resp') (UnAuthenticate c1)
                 (snd (body_Close (Body resp') w1)) rd1
          else Inr (resp', c1, w1, rd1))"
  by pat_completeness auto
termination
  by (relation "measure (\<lambda>(L, p, n, resp, c, w, rd). nat n)") auto

declare storage_loop.simps [simp del]

definition storage ::
  "stdlib \<Rightarrow> storageOpts \<Rightarrow> Connection \<Rightarrow> world \<Rightarrow>
   (response option \<times> Headers option \<times> error option) \<times> storage_state" where
  "storage L p c w =
     (let n = (if retries p = 0 then Retries c else retries p)
      in case storage_loop L p n None c w (body p) of
           Inl (resp, e, st) \<Rightarrow> ((resp, None, Some e), st)
         | Inr (resp, c1, w1, rd1) \<Rightarrow>
             (case parseHeaders resp (errorMap p) of
                Some e \<Rightarrow> ((None, None, Some e), c1, snd (body_Close (Body resp) w1), rd1)
              | None \<Rightarrow>
                  let headers = readHeaders resp
                  in if noResponse p
                     then (case body_Close (Body resp) w1 of
                             (Some e, w2) \<Rightarrow> ((None, None, Some e), c1, w2, rd1)
                           | (None, w2) \<Rightarrow> ((Some resp, Some headers, None), c1, w2, rd1))
                     else ((Some resp, Some headers, None), c1, w1, rd1)))"

section \<open>Reading numbers from headers\<close>

text \<open>
  \<open>strconv.ParseInt(value, 10, 64)\<close>: an optional sign, then decimal digits read from
  the left; the first byte that is no digit is a syntax error, the first step that leaves
  64 bits a range error. The value returned with a range error is the nearest bound. The
  unsigned 64-bit accumulator is an \<open>int\<close> with its bound written out.
\<close>

definition isDigit :: "char \<Rightarrow> bool" where
  "isDigit c = (48 \<le> (of_char c :: nat) \<and> (of_char c :: nat) \<le> 57)"

datatype num_error = ErrSyntax | ErrRange

fun ParseUint_loop :: "int \<Rightarrow> string \<Rightarrow> int \<times> num_error option" where
  "ParseUint_loop n [] = (n, None)"
| "ParseUint_loop n (d # s) =
     (if \<not> isDigit d then (0, Some ErrSyntax)
      else if 2 ^ 64 \<le> n * 10 + ((of_char d :: int) - 48) then (2 ^ 64 - 1, Some ErrRange)
      else ParseUint_loop (n * 10 + ((of_char d :: int) - 48)) s)"

definition ParseUint :: "string \<Rightarrow> int \<times> num_error option" where
  "ParseUint s = (if s = [] then (0, Some ErrSyntax) else ParseUint_loop 0 s)"

definition ParseInt :: "string \<Rightarrow> int \<times> num_error option" where
  "ParseInt s0 =
     (if s0 = [] then (0, Some ErrSyntax)
      else
        let neg = (hd s0 = CHR ''-'');
            s = (if hd s0 = CHR ''+'' \<or> hd s0 = CHR ''-'' then tl s0 else s0)
        in case ParseUint s of
             (un, Some ErrSyntax) \<Rightarrow> (0, Some ErrSyntax)
           | (un, r) \<Rightarrow>
               if \<not> neg \<and> 2 ^ 63 \<le> un then (2 ^ 63 - 1, Some ErrRange)
               else if neg \<and> 2 ^ 63 < un then (- (2 ^ 63), Some ErrRange)
               else (if neg then - un else un, None))"

text \<open>
  The text of a \<open>strconv.NumError\<close>.
\<close>

definition NumError_text :: "stdlib \<Rightarrow> string \<Rightarrow> num_error \<Rightarrow> string" where
  "NumError_text L s e =
     ''strconv.ParseInt: parsing '' @ Quote L s @ '': '' @
     (case e of ErrSyntax \<Rightarrow> ''invalid syntax'' | ErrRange \<Rightarrow> ''value out of range'')"

definition getInt64FromHeader :: "stdlib \<Rightarrow> response \<Rightarrow> string \<Rightarrow> int \<times> error option" where
  "getInt64FromHeader L resp header =
     (let val = Header_Get (Header resp) header
      in case ParseInt val of
           (result, Some e) \<Rightarrow>
             (result, Some (newError 0 (''Bad Header '' @ [CHR 0x27] @ header @ [CHR 0x27] @ '': '' @
                [CHR 0x27] @ val @ [CHR 0x27] @ '': '' @ NumError_text L val e)))
         | (result, None) \<Rightarrow> (result, None))"

section \<open>Account and container operations\<close>

text \<open>
  A call that goes on to use \<open>resp\<close> after \<open>storage\<close> has returned no error would
  panic on a nil \<open>resp\<close>: \<open>Panics\<close>.
\<close>

datatype 'a outcome = Returns 'a | Panics

definition opts0 :: storageOpts where
  "opts0 = \<lparr>container = '''', objectName = '''', operation = '''', parameters = None,
            headers = [], errorMap = None, noResponse = False, body = None, retries = 0\<rparr>"

record Account =
  BytesUsed :: int
  Containers :: int
  Objects :: int

definition Account_opts :: storageOpts where
  "Account_opts = opts0\<lparr>operation := ''HEAD'', errorMap := Some containerErrorMap,
                         noResponse := True\<rparr>"

definition Account ::
  "stdlib \<Rightarrow> Connection \<Rightarrow> world \<Rightarrow>
   ((Account \<times> Headers option \<times> error option) \<times> Connection \<times> world) outcome" where
  "Account L c w =
     (case storage L Account_opts c w of
        ((resp, hdrs, err), c', w', rd) \<Rightarrow>
          let info = \<lparr>BytesUsed = 0, Containers = 0, Objects = 0\<rparr>
          in case err of
               Some e \<Rightarrow> Returns ((info, hdrs, Some e), c', w')
             | None \<Rightarrow>
                 (case resp of
                    None \<Rightarrow> Panics
                  | Some r \<Rightarrow>
                      (case getInt64FromHeader L r ''X-Account-Bytes-Used'' of
                         (n1, Some e) \<Rightarrow>
                           Returns ((info\<lparr>BytesUsed := n1\<rparr>, hdrs, Some e), c', w')
                       | (n1, None) \<Rightarrow>
                           (case getInt64FromHeader L r ''X-Account-Container-Count'' of
                              (n2, Some e) \<Rightarrow>
                                Returns ((info\<lparr>BytesUsed := n1, Containers := n2\<rparr>,
                                          hdrs, Some e), c', w')
                            | (n2, None) \<Rightarrow>
                                (case getInt64FromHeader L r ''X-Account-Object-Count'' of
                                   (n3, e3) \<Rightarrow>
                                     Returns ((\<lparr>BytesUsed = n1, Containers = n2, Objects = n3\<rparr>,
                                               hdrs, e3), c', w'))))))"

definition AccountUpdate_opts :: "Headers \<Rightarrow> storageOpts" where
  "AccountUpdate_opts h = opts0\<lparr>operation := ''POST'', errorMap := Some containerErrorMap,
                                 noResponse := True, headers := h\<rparr>"

definition AccountUpdate ::
  "stdlib \<Rightarrow> Headers \<Rightarrow> Connection \<Rightarrow> world \<Rightarrow> error option \<times> Connection \<times> world" where
  "AccountUpdate L h c w =
     (case storage L (AccountUpdate_opts h) c w of
        ((resp, hdrs, err), c', w', rd) \<Rightarrow> (err, c', w'))"

definition ContainerDelete_opts :: "string \<Rightarrow> storageOpts" where
  "ContainerDelete_opts cont = opts0\<lparr>container := cont, operation := ''DELETE'',
                                      errorMap := Some containerErrorMap, noResponse := True\<rparr>"

definition ContainerDelete ::
  "stdlib \<Rightarrow> string \<Rightarrow> Connection \<Rightarrow> world \<Rightarrow> error option \<times> Connection \<times> world" where
  "ContainerDelete L cont c w =
     (case storage L (ContainerDelete_opts cont) c w of
        ((resp, hdrs, err), c', w', rd) \<Rightarrow> (err, c', w'))"

section \<open>Object operations\<close>

definition ObjectDelete_opts :: "string \<Rightarrow> string \<Rightarrow> storageOpts" where
  "ObjectDelete_opts cont name = opts0\<lparr>container := cont, objectName := name,
                                        operation := ''DELETE'', errorMap := Some objectErrorMap\<rparr>"

definition ObjectDelete ::
  "stdlib \<Rightarrow> string \<Rightarrow> string \<Rightarrow> Connection \<Rightarrow> world \<Rightarrow> error option \<times> Connection \<times> world" where
  "ObjectDelete L cont name c w =
     (case storage L (ObjectDelete_opts cont name) c w of
        ((resp, hdrs, err), c', w', rd) \<Rightarrow> (err, c', w'))"

text \<open>
  \<open>ObjectPut\<close>. \<open>contents\<close> is the unread content of the caller's reader. The result
  carries the state of the reader after the call.
\<close>

definition ObjectPut_headers :: "string \<Rightarrow> string \<Rightarrow> Headers \<Rightarrow> Headers" where
  "ObjectPut_headers Hash contentType h =
     (let contentType = (if contentType = '''' then ''application/octet-stream'' else contentType);
          extraHeaders = fold (\<lambda>(key, val) e. AList.update key val e) h
                           [(''Content-Type'', contentType)]
      in if Hash \<noteq> '''' then AList.update ''Etag'' Hash extraHeaders else extraHeaders)"

definition ObjectPut_opts ::
  "string \<Rightarrow> string \<Rightarrow> string \<Rightarrow> bool \<Rightarrow> string \<Rightarrow> string \<Rightarrow> Headers \<Rightarrow> storageOpts" where
  "ObjectPut_opts cont name contents checkHash Hash contentType h =
     (let checkHash = (if Hash \<noteq> '''' then False else checkHash)
      in opts0\<lparr>container := cont, objectName := name, operation := ''PUT'',
                headers := ObjectPut_headers Hash contentType h,
                body := Some (if checkHash then TeeReader contents '''' else Reader contents),
                noResponse := True, errorMap := Some objectErrorMap\<rparr>)"

definition ObjectPut ::
  "stdlib \<Rightarrow> string \<Rightarrow> string \<Rightarrow> string \<Rightarrow> bool \<Rightarrow> string \<Rightarrow> string \<Rightarrow> Headers \<Rightarrow>
   Connection \<Rightarrow> world \<Rightarrow> ((Headers option \<times> error option) \<times> storage_state) outcome" where
  "ObjectPut L cont name contents checkHash0 Hash contentType h c w =
     (let checkHash = (if Hash \<noteq> '''' then False else checkHash0)
      in case storage L (ObjectPut_opts cont name contents checkHash0 Hash contentType h) c w of
           ((resp, hdrs, err), st) \<Rightarrow>
             (case err of
                Some e \<Rightarrow> Returns ((hdrs, Some e), st)
              | None \<Rightarrow>
                  if checkHash
                  then (case resp of
                          None \<Rightarrow> Panics
                        | Some r \<Rightarrow>
                            let receivedMd5 = ToLower L (Header_Get (Header r) ''Etag'');
                                calculatedMd5 = hex (md5sum L (hashed (snd (snd st))))
                            in if receivedMd5 \<noteq> calculatedMd5
                               then Returns ((hdrs, Some ObjectCorrupted), st)
                               else Returns ((hdrs, None), st))
                  else Returns ((hdrs, None), st)))"

text \<open>
  The caller's sink of \<open>ObjectGet\<close>, an \<open>io.Writer\<close>: the bytes it has taken, and the
  room it has left when it is bounded (a write beyond it is short and fails).
\<close>

record writer =
  buf :: string
  room :: "nat option"

definition ErrShortWrite :: error where
  "ErrShortWrite = Foreign ''short write''"

definition writer_Write :: "string \<Rightarrow> writer \<Rightarrow> (nat \<times> error option) \<times> writer" where
  "writer_Write p wr =
     (case room wr of
        None \<Rightarrow> ((length p, None), wr\<lparr>buf := buf wr @ p\<rparr>)
      | Some r \<Rightarrow>
          if length p \<le> r
          then ((length p, None), wr\<lparr>buf := buf wr @ p, room := Some (r - length p)\<rparr>)
          else ((r, Some (Foreign ''write: no room left'')),
                wr\<lparr>buf := buf wr @ take r p, room := Some 0\<rparr>))"

text \<open>
  The destination of the copy: the sink alone, or \<open>io.MultiWriter(contents, hash)\<close>,
  which writes to the sink and then to the hash. \<open>hsh\<close> is what the hash has been fed.
\<close>

definition dst_Write ::
  "bool \<Rightarrow> string \<Rightarrow> writer \<Rightarrow> string \<Rightarrow> (nat \<times> error option) \<times> writer \<times> string" where
  "dst_Write checkHash p wr hsh =
     (case writer_Write p wr of
        ((n, err), wr') \<Rightarrow>
          if \<not> checkHash then ((n, err), wr', hsh)
          else if err \<noteq> None then ((n, err), wr', hsh)
          else if n \<noteq> length p then ((n, Some ErrShortWrite), wr', hsh)
          else ((length p, None), wr', hsh @ p))"

fun copy_loop ::
  "bool \<Rightarrow> string list \<Rightarrow> error option \<Rightarrow> int \<Rightarrow> writer \<Rightarrow> string \<Rightarrow>
   (int \<times> error option) \<times> writer \<times> string" where
  "copy_loop checkHash [] er written wr hsh = ((written, er), wr, hsh)"
| "copy_loop checkHash (p # ps) er written wr hsh =
     (if length p > 0
      then (case dst_Write checkHash p wr hsh of
              ((nw, ew), wr', hsh') \<Rightarrow>
                let written' = (if nw > 0 then written + int nw else written)
                in if ew \<noteq> None then ((written', ew), wr', hsh')
                   else if length p \<noteq> nw then ((written', Some ErrShortWrite), wr', hsh')
                   else copy_loop checkHash ps er written' wr' hsh')
      else copy_loop checkHash ps er written wr hsh)"

definition io_Copy ::
  "bool \<Rightarrow> writer \<Rightarrow> body \<Rightarrow> world \<Rightarrow> (int \<times> error option) \<times> writer \<times> string \<times> world" where
  "io_Copy checkHash wr b w =
     (case copy_loop checkHash (chunks b) (rerr b) 0 wr '''' of
        (res, wr', hsh) \<Rightarrow> (res, wr', hsh, emit (BodyRead (bid b)) w))"

definition ObjectGet_opts :: "string \<Rightarrow> string \<Rightarrow> Headers \<Rightarrow> storageOpts" where
  "ObjectGet_opts cont name h = opts0\<lparr>container := cont, objectName := name,
                                       operation := ''GET'', errorMap := Some objectErrorMap,
                                       headers := h\<rparr>"

text \<open>What \<open>ObjectGet\<close> decides once the copy has returned, before the deferred close.\<close>

definition ObjectGet_check ::
  "stdlib \<Rightarrow> response \<Rightarrow> bool \<Rightarrow> string \<Rightarrow> int \<Rightarrow> error option \<Rightarrow> error option" where
  "ObjectGet_check L resp checkHash hsh written cperr =
     (case cperr of
        Some e \<Rightarrow> Some e
      | None \<Rightarrow>
          if checkHash \<and>
             ToLower L (Header_Get (Header resp) ''Etag'') \<noteq> hex (md5sum L hsh)
          then Some ObjectCorrupted
          else if Header_Get (Header resp) ''Content-Length'' \<noteq> ''''
          then (case getInt64FromHeader L resp ''Content-Length'' of
                  (objectLength, Some e) \<Rightarrow> Some e
                | (objectLength, None) \<Rightarrow>
                    if objectLength \<noteq> written then Some ObjectCorrupted else None)
          else None)"

definition ObjectGet ::
  "stdlib \<Rightarrow> string \<Rightarrow> string \<Rightarrow> writer \<Rightarrow> bool \<Rightarrow> Headers \<Rightarrow> Connection \<Rightarrow> world \<Rightarrow>
   ((Headers option \<times> error option) \<times> writer \<times> Connection \<times> world) outcome" where
  "ObjectGet L cont name contents checkHash h c w =
     (case storage L (ObjectGet_opts cont name h) c w of
        ((resp, hdrs, err), c', w', rd) \<Rightarrow>
          (case err of
             Some e \<Rightarrow> Returns ((hdrs, Some e), contents, c', w')
           | None \<Rightarrow>
               (case resp of
                  None \<Rightarrow> Panics
                | Some r \<Rightarrow>
                    (case io_Copy checkHash contents (Body r) w' of
                       ((written, cperr), contents', hsh, w2) \<Rightarrow>
                         (case checkClose (Body r)
                                 (ObjectGet_check L r checkHash hsh written cperr) w2 of
                            (err', w3) \<Rightarrow> Returns ((hdrs, err'), contents', c', w3))))))"

section \<open>Notions the properties are stated with\<close>

text \<open>An event that reads from a response body.\<close>

fun isBodyRead :: "event \<Rightarrow> bool" where
  "isBodyRead (BodyRead n) = True"
| "isBodyRead _ = False"

text \<open>
  Answers of the transport: a handshake that gives both values and closes well, a
  response 401, and a response that is a success for the operation (a status in 200..299
  that the error map does not mention, and a body that closes well when the dispatcher
  closes it).
\<close>

definition good_handshake :: "exchange \<Rightarrow> bool" where
  "good_handshake x =
     (case snd x of
        Inl e \<Rightarrow> False
      | Inr r \<Rightarrow> 200 \<le> StatusCode r \<and> StatusCode r \<le> 299 \<and>
                 Header_Get (Header r) ''X-Storage-Url'' \<noteq> '''' \<and>
                 Header_Get (Header r) ''X-Auth-Token'' \<noteq> '''' \<and>
                 cerr (Body r) = None)"

definition answers_401 :: "exchange \<Rightarrow> bool" where
  "answers_401 x = (case snd x of Inl e \<Rightarrow> False | Inr r \<Rightarrow> StatusCode r = 401)"

definition answers_success :: "storageOpts \<Rightarrow> exchange \<Rightarrow> bool" where
  "answers_success p x =
     (case snd x of
        Inl e \<Rightarrow> False
      | Inr r \<Rightarrow> 200 \<le> StatusCode r \<and> StatusCode r \<le> 299 \<and>
                 (case errorMap p of None \<Rightarrow> True | Some m \<Rightarrow> m (StatusCode r) = None) \<and>
                 (noResponse p \<longrightarrow> cerr (Body r) = None))"

text \<open>
  A transport that, from an unauthenticated session on, answers every handshake well and
  the request for the resource with 401 exactly \<open>k\<close> times, then with a success.
\<close>

fun expires :: "storageOpts \<Rightarrow> nat \<Rightarrow> exchange list \<Rightarrow> bool" where
  "expires p 0 (a # x # rest) = (good_handshake a \<and> answers_success p x)"
| "expires p (Suc k) (a # x # rest) = (good_handshake a \<and> answers_401 x \<and> expires p k rest)"
| "expires p k rest = False"

text \<open>
  A handshake in the log: a request sent to the authentication URL, with the key and
  without a token. \<open>handshakes\<close> counts them.
\<close>

fun is_handshake :: "Connection \<Rightarrow> event \<Rightarrow> bool" where
  "is_handshake c (Sent r) =
     (reqURL r = AuthUrl c \<and> map_of (reqHeader r) ''X-Auth-Key'' \<noteq> None \<and>
      map_of (reqHeader r) ''X-Auth-Token'' = None)"
| "is_handshake c e = False"

definition handshakes :: "Connection \<Rightarrow> world \<Rightarrow> nat" where
  "handshakes c w = length (filter (is_handshake c) (log w))"

text \<open>
  The two fields of the session are both empty or both set. An answer of the transport
  that would break this when taken as the answer to a handshake: a status in 200..299
  with exactly one of the two headers non-empty.
\<close>

definition paired :: "Connection \<Rightarrow> bool" where
  "paired c = ((storageUrl c = '''') = (authToken c = ''''))"

definition half_answer :: "exchange \<Rightarrow> bool" where
  "half_answer x =
     (case snd x of
        Inl e \<Rightarrow> False
      | Inr r \<Rightarrow> 200 \<le> StatusCode r \<and> StatusCode r \<le> 299 \<and>
                 ((Header_Get (Header r) ''X-Storage-Url'' = '''')
                    \<noteq> (Header_Get (Header r) ''X-Auth-Token'' = '''')))"

text \<open>
  Sequences of operations on a connection, and the states a run goes through: the one
  before the first operation and the one after each.
\<close>

datatype session_op = OpAuthenticate | OpUnAuthenticate | OpStorage storageOpts

fun apply_op :: "stdlib \<Rightarrow> session_op \<Rightarrow> Connection \<times> world \<Rightarrow> Connection \<times> world" where
  "apply_op L OpAuthenticate (c, w) = snd (Authenticate L c w)"
| "apply_op L OpUnAuthenticate (c, w) = (UnAuthenticate c, w)"
| "apply_op L (OpStorage p) (c, w) =
     (case storage L p c w of (res, c', w', rd) \<Rightarrow> (c', w'))"

fun run :: "stdlib \<Rightarrow> session_op list \<Rightarrow> Connection \<times> world \<Rightarrow> (Connection \<times> world) list" where
  "run L [] s = [s]"
| "run L (x # xs) s = s # run L xs (apply_op L x s)"

text \<open>
  The state the invariant is about: the fields are paired, and no answer that the
  transport still holds would break the pairing.
\<close>

definition sound :: "Connection \<times> world \<Rightarrow> bool" where
  "sound s = (paired (fst s) \<and> (\<forall>x \<in> set (script (snd s)). \<not> half_answer x))"

text \<open>
  A metadata map with its keys lower-cased, as the specification has it: the entries are
  stored again under the lower-cased key, in the order of the visit.
\<close>

definition lower_keyed :: "stdlib \<Rightarrow> Metadata \<Rightarrow> Metadata" where
  "lower_keyed L m = fold (\<lambda>(key, val) acc. AList.update (ToLower L key) val acc) m []"

text \<open>A string made of bytes that are valid in a header field name.\<close>

definition header_token :: "string \<Rightarrow> bool" where
  "header_token s = list_all validHeaderFieldByte s"

section \<open>Concrete inputs\<close>

text \<open>
  A library in which every request can be built (its digest is a stand-in of one byte, and
  its Unicode table changes nothing), an authenticated connection, and worlds given by
  their script, for evaluating the operations.
\<close>

definition lib0 :: stdlib where
  "lib0 = \<lparr>newRequestErr = (\<lambda>m u. None), Encode = (\<lambda>v. ''''), md5sum = (\<lambda>s. [char_of (length s)]),
           Quote = (\<lambda>s. s), Map_ToLower = (\<lambda>s. s)\<rparr>"

definition conn0 :: Connection where
  "conn0 = \<lparr>UserName = ''user'', ApiKey = ''key'', AuthUrl = ''https://auth/v1.0'', Retries = 3,
            UserAgent = ''goswift/1.0'', storageUrl = ''https://store/v1/a'', authToken = ''tok''\<rparr>"

definition body0 :: body where
  "body0 = \<lparr>chunks = [], rerr = None, cerr = None, bid = 0\<rparr>"

definition resp0 :: "int \<Rightarrow> string \<Rightarrow> http_Header \<Rightarrow> response" where
  "resp0 sc st h = \<lparr>StatusCode = sc, Status = st, Header = h, Body = body0\<rparr>"

definition world0 :: "exchange list \<Rightarrow> world" where
  "world0 xs = \<lparr>script = xs, served = 0, log = []\<rparr>"

definition sent0 :: "string \<Rightarrow> string \<Rightarrow> http_Header \<Rightarrow> world" where
  "sent0 m u h = \<lparr>script = [], served = 1,
                  log = [Sent \<lparr>reqMethod = m, reqURL = u,
                                reqHeader = h @ [(''User-Agent'', ''goswift/1.0'', []),
                                                 (''X-Auth-Token'', ''tok'', [])],
                                reqBody = None\<rparr>]\<rparr>"

text \<open>A response whose body holds data, and a download of forty bytes into an empty sink.\<close>

definition resp_hello :: response where
  "resp_hello = \<lparr>StatusCode = 200, Status = ''200 OK'', Header = [],
                 Body = \<lparr>chunks = [''hello''], rerr = None, cerr = None, bid = 0\<rparr>\<rparr>"

definition data40 :: string where
  "data40 = replicate 40 (CHR ''a'')"

definition resp_get :: "string \<Rightarrow> string \<Rightarrow> response" where
  "resp_get etag len =
     \<lparr>StatusCode = 200, Status = ''200 OK'',
      Header = [(''Content-Length'', len, []), (''Etag'', etag, [])],
      Body = \<lparr>chunks = [data40], rerr = None, cerr = None, bid = 0\<rparr>\<rparr>"

definition sink0 :: writer where
  "sink0 = \<lparr>buf = '''', room = None\<rparr>"

definition etag40 :: string where
  "etag40 = hex (md5sum lib0 data40)"

definition world_get :: world where
  "world_get = sent0 ''GET'' ''https://store/v1/a/c/o'' []"

text \<open>Answers of the transport: a handshake that succeeds, a refusal 401, a success.\<close>

definition grant :: exchange where
  "grant = (0, Inr (resp0 200 ''200 OK'' [(''X-Auth-Token'', ''tok'', []),
                                           (''X-Storage-Url'', ''https://store/v1/a'', [])]))"

definition deny :: exchange where
  "deny = (0, Inr (resp0 401 ''401 Unauthorized'' []))"

definition accept :: exchange where
  "accept = (0, Inr (resp0 204 ''204 No Content'' []))"

text \<open>A handshake answered 200 with the storage URL and without a token.\<close>

definition half :: exchange where
  "half = (0, Inr (resp0 200 ''200 OK'' [(''X-Storage-Url'', ''https://store/v1/a'', [])]))"

text \<open>
  Metadata with lower-case keys, the same with mixed case, and their headers in an order
  that is not the one they were stored in.
\<close>

definition meta_lower :: Metadata where
  "meta_lower = [(''colour'', ''red''), (''size'', ''9'')]"

definition meta_mixed :: Metadata where
  "meta_mixed = [(''Colour'', ''red''), (''SIZE'', ''9'')]"

definition meta_headers :: Headers where
  "meta_headers = [(''X-Object-Meta-Size'', ''9''), (''X-Object-Meta-Colour'', ''red'')]"

text \<open>Metadata with a lower-case key that holds a space, and a prefix in lower case.\<close>

definition meta_spaced :: Metadata where
  "meta_spaced = [(''a b'', ''v'')]"

definition prefix_lower :: string where
  "prefix_lower = ''x-object-meta-''"

section \<open>Basic facts\<close>

lemma Itoa_409: "Itoa 409 = ''409''"
  by code_simp

lemma Itoa_401: "Itoa 401 = ''401''"
  by code_simp

lemma canon_consts:
  "CanonicalHeaderKey ''X-Storage-Url'' = ''X-Storage-Url''"
  "CanonicalHeaderKey ''X-Auth-Token'' = ''X-Auth-Token''"
  "CanonicalHeaderKey ''X-Auth-Key'' = ''X-Auth-Key''"
  "CanonicalHeaderKey ''X-Auth-User'' = ''X-Auth-User''"
  "CanonicalHeaderKey ''User-Agent'' = ''User-Agent''"
  "CanonicalHeaderKey ''Etag'' = ''Etag''"
  "CanonicalHeaderKey ''Content-Length'' = ''Content-Length''"
  by code_simp+

lemma parseHeaders_mapped:
  "em = Some m \<Longrightarrow> m (StatusCode resp) = Some e \<Longrightarrow> parseHeaders resp em = Some e"
  by (simp add: parseHeaders_def)

lemma parseHeaders_unmapped:
  "(case em of None \<Rightarrow> None | Some m \<Rightarrow> m (StatusCode resp)) = None \<Longrightarrow>
   parseHeaders resp em =
     (if 200 \<le> StatusCode resp \<and> StatusCode resp \<le> 299 then None
      else Some (Error (StatusCode resp)
                  (''HTTP Error: '' @ Itoa (StatusCode resp) @ '': '' @ Status resp)))"
  by (auto simp add: parseHeaders_def newError_def)

lemma parseHeaders_auth_2xx:
  "200 \<le> StatusCode resp \<Longrightarrow> StatusCode resp \<le> 299 \<Longrightarrow>
   parseHeaders resp (Some authErrorMap) = None"
  by (simp add: parseHeaders_def authErrorMap_def)

lemma container_table:
  "StatusCode resp = 404 \<Longrightarrow> parseHeaders resp (Some containerErrorMap) = Some ContainerNotFound"
  "StatusCode resp = 409 \<Longrightarrow> parseHeaders resp (Some containerErrorMap) = Some ContainerNotEmpty"
  by (simp_all add: parseHeaders_def containerErrorMap_def)

lemma client_Do_answer:
  "script w = (n, Inr resp) # rest \<Longrightarrow>
   client_Do w req = (Inr (resp\<lparr>Body := (Body resp)\<lparr>bid := served w\<rparr>\<rparr>),
                      map_option (consume n) (reqBody req),
                      emit (Sent req) (w\<lparr>served := served w + 1\<rparr>)\<lparr>script := rest\<rparr>)"
  by (simp add: client_Do_def Let_def)

text \<open>When the loop of \<open>storage\<close> ends with a response that classifies as an error.\<close>

lemma storage_of_loop_error:
  assumes "storage_loop L p (if retries p = 0 then Retries c else retries p) None c w (body p)
             = Inr (resp, c1, w1, rd1)"
    and "parseHeaders resp (errorMap p) = Some e"
  shows "storage L p c w = ((None, None, Some e), c1, snd (body_Close (Body resp) w1), rd1)"
  using assms by (simp add: storage_def Let_def)

lemma Account_opts_simps:
  "retries Account_opts = 0" "body Account_opts = None"
  "errorMap Account_opts = Some containerErrorMap" "noResponse Account_opts"
  by (simp_all add: Account_opts_def opts0_def)

lemma AccountUpdate_opts_simps:
  "retries (AccountUpdate_opts h) = 0" "body (AccountUpdate_opts h) = None"
  "errorMap (AccountUpdate_opts h) = Some containerErrorMap" "noResponse (AccountUpdate_opts h)"
  by (simp_all add: AccountUpdate_opts_def opts0_def)

section \<open>What the operations do to the world\<close>

lemma emit_simps [simp]:
  "log (emit e w) = log w @ [e]" "script (emit e w) = script w" "served (emit e w) = served w"
  by (simp_all add: emit_def)

lemma CloseIdle_simps [simp]:
  "log (CloseIdleConnections w) = log w @ [IdleClosed]"
  "script (CloseIdleConnections w) = script w"
  "served (CloseIdleConnections w) = served w"
  by (simp_all add: CloseIdleConnections_def)

lemma body_Close_simps [simp]:
  "fst (body_Close b w) = cerr b"
  "log (snd (body_Close b w)) = log w @ [BodyClosed (bid b)]"
  "script (snd (body_Close b w)) = script w"
  "served (snd (body_Close b w)) = served w"
  by (simp_all add: body_Close_def)

lemma client_Do_world:
  "client_Do w req = (a, rd, w') \<Longrightarrow>
     log w' = log w @ [Sent req] \<and> served w' = served w + 1 \<and> script w' = tl (script w)"
  by (auto simp add: client_Do_def Let_def split: list.splits prod.splits)

lemma client_Do_Inr:
  "client_Do w req = (Inr resp, rd, w') \<Longrightarrow>
     \<exists>n r rest. script w = (n, Inr r) # rest \<and> resp = r\<lparr>Body := (Body r)\<lparr>bid := served w\<rparr>\<rparr>
       \<and> rd = map_option (consume n) (reqBody req)"
  by (auto simp add: client_Do_def Let_def split: list.splits prod.splits sum.splits)

lemmas Authenticate_unfold =
  Authenticate_def Let_def NewRequest_def client_Do_def Authenticate_deferred_def
  checkClose_def body_Close_def CloseIdleConnections_def emit_def

lemma Authenticate_None:
  "Authenticate L c w = (None, c1, w1) \<Longrightarrow> Authenticated c1"
  unfolding Authenticate_unfold
  by (auto split: option.splits sum.splits list.splits prod.splits if_splits)

lemma Authenticate_fixed:
  "Authenticate L c w = (err, c1, w1) \<Longrightarrow>
     AuthUrl c1 = AuthUrl c \<and> UserName c1 = UserName c \<and> ApiKey c1 = ApiKey c"
  unfolding Authenticate_unfold
  by (auto split: option.splits sum.splits list.splits prod.splits if_splits)

lemma Authenticate_reads:
  "Authenticate L c w = (err, c1, w1) \<Longrightarrow>
     filter isBodyRead (log w1) = filter isBodyRead (log w)"
  unfolding Authenticate_unfold
  by (auto split: option.splits sum.splits list.splits prod.splits if_splits)

text \<open>
  A turn of the loop that receives a response: the session is authenticated, the last
  event is the sending of the request built from it, and no body has been read.
\<close>

lemma storage_attempt_Inr:
  assumes "storage_attempt L p rs c w rd = Inr (resp, c1, w1, rd1)"
  shows "Authenticated c1"
    and "\<exists>pre. log w1 = pre @ [Sent \<lparr>reqMethod = operation p, reqURL = storage_url L c1 p,
                                       reqHeader = storage_headers c1 p [], reqBody = rd\<rparr>]"
    and "filter isBodyRead (log w1) = filter isBodyRead (log w)"
    and "bid (Body resp) + 1 = served w1"
proof -
  obtain e c0 w0 where
    a: "(if \<not> Authenticated c then Authenticate L c w else (None, c, w)) = (e, c0, w0)"
    by (metis prod_cases3)
  from assms a have e: "e = None"
    by (cases e) (simp_all add: storage_attempt_def)
  have auth: "Authenticated c0"
    using a e Authenticate_None by (auto split: if_splits)
  have reads0: "filter isBodyRead (log w0) = filter isBodyRead (log w)"
    using a Authenticate_reads by (auto split: if_splits)
  from assms a e obtain req where
    req: "NewRequest L (operation p) (storage_url L c0 p) rd = Inr req"
    and d: "client_Do w0 (req\<lparr>reqHeader := storage_headers c0 p (reqHeader req)\<rparr>)
              = (Inr resp, rd1, w1)"
    and c: "c1 = c0"
    by (auto simp add: storage_attempt_def split: sum.splits prod.splits)
  from req have r: "req = \<lparr>reqMethod = operation p, reqURL = storage_url L c0 p,
                            reqHeader = [], reqBody = rd\<rparr>"
    by (auto simp add: NewRequest_def split: option.splits)
  show "Authenticated c1"
    using auth c by simp
  show "\<exists>pre. log w1 = pre @ [Sent \<lparr>reqMethod = operation p, reqURL = storage_url L c1 p,
                                       reqHeader = storage_headers c1 p [], reqBody = rd\<rparr>]"
    using client_Do_world [OF d] r c by simp
  show "filter isBodyRead (log w1) = filter isBodyRead (log w)"
    using client_Do_world [OF d] reads0 by simp
  show "bid (Body resp) + 1 = served w1"
    using client_Do_world [OF d] client_Do_Inr [OF d] by auto
qed

lemma storage_loop_Inr:
  "storage_loop L p n rs c w rd = Inr (resp, c1, w1, rd1) \<Longrightarrow>
     Authenticated c1 \<and>
     (\<exists>pre rd'. log w1 = pre @ [Sent \<lparr>reqMethod = operation p, reqURL = storage_url L c1 p,
                                       reqHeader = storage_headers c1 p [], reqBody = rd'\<rparr>]) \<and>
     filter isBodyRead (log w1) = filter isBodyRead (log w) \<and>
     bid (Body resp) + 1 = served w1"
proof (induction L p n rs c w rd rule: storage_loop.induct)
  case (1 L p n rs c w rd)
  show ?case
  proof (cases "storage_attempt L p rs c w rd")
    case (Inl out)
    with "1.prems" show ?thesis
      by (simp add: storage_loop.simps)
  next
    case (Inr x)
    obtain resp' c' w' rd' where x: "x = (resp', c', w', rd')"
      by (cases x) auto
    note att = storage_attempt_Inr [OF Inr [unfolded x]]
    show ?thesis
    proof (cases "StatusCode resp' = 401 \<and> n > 0")
      case True
      with "1.prems" Inr x
      have "storage_loop L p (n - 1) (Some resp') (UnAuthenticate c')
              (snd (body_Close (Body resp') w')) rd' = Inr (resp, c1, w1, rd1)"
        by (simp add: storage_loop.simps)
      from "1.IH" [OF Inr, of resp' "(c', w', rd')" c' "(w', rd')" w' rd'] x True this att(3)
      show ?thesis
        by simp
    next
      case False
      with "1.prems" Inr x have "resp = resp'" "c1 = c'" "w1 = w'" "rd1 = rd'"
        by (simp_all add: storage_loop.simps)
      with att show ?thesis
        by blast
    qed
  qed
qed

text \<open>One unfolding of the loop, once the turn has received a response.\<close>

lemma storage_loop_unfold:
  "storage_attempt L p rs c w rd = Inr (resp', c1, w1, rd1) \<Longrightarrow>
   storage_loop L p n rs c w rd =
     (if StatusCode resp' = 401 \<and> n > 0
      then storage_loop L p (n - 1) (Some resp') (UnAuthenticate c1)
             (snd (body_Close (Body resp') w1)) rd1
      else Inr (resp', c1, w1, rd1))"
  by (subst storage_loop.simps) simp

section \<open>The headers of a request to the storage URL\<close>

lemma Header_values_Nil: "Header_values [] k = []"
  by (simp add: Header_values_def)

lemma Header_values_Add:
  "Header_values (Header_Add h k v) k' =
     (if k' = CanonicalHeaderKey k then Header_values h k' @ [v] else Header_values h k')"
  by (auto simp add: Header_Add_def Header_values_def Let_def update_conv' split: option.splits)

lemma Header_values_fold_Add:
  "Header_values (fold (\<lambda>(k, v) h. Header_Add h k v) kvs h0) k' =
     Header_values h0 k' @ map snd (filter (\<lambda>kv. CanonicalHeaderKey (fst kv) = k') kvs)"
  by (induction kvs arbitrary: h0) (auto simp add: Header_values_Add)

text \<open>
  The values of a key in the request: those of the caller, in the order of the visit of
  the caller's map, then the default user agent, then the token.
\<close>

lemma storage_headers_values:
  "Header_values (storage_headers c p []) k' =
     map snd (filter (\<lambda>kv. CanonicalHeaderKey (fst kv) = k') (headers p)) @
     (if k' = ''User-Agent'' then [DefaultUserAgent] else []) @
     (if k' = ''X-Auth-Token'' then [authToken c] else [])"
  unfolding storage_headers_def Header_values_Add Header_values_fold_Add canon_consts
    Header_values_Nil
  by (cases "k' = ''User-Agent''"; cases "k' = ''X-Auth-Token''") simp_all

lemma Header_Get_values:
  "Header_Get h k = (case Header_values h (CanonicalHeaderKey k) of [] \<Rightarrow> '''' | v # vs \<Rightarrow> v)"
  by (simp add: Header_Get_def Header_values_def split: option.splits)

lemma filter_only:
  assumes "(k, v) \<in> set kvs"
    and "\<forall>kv \<in> set kvs. f (fst kv) = f k \<longrightarrow> kv = (k, v)"
  shows "\<exists>m. map snd (filter (\<lambda>kv. f (fst kv) = f k) kvs) = v # m"
proof -
  let ?P = "\<lambda>kv. f (fst kv) = f k"
  from assms(1) have "(k, v) \<in> set (filter ?P kvs)"
    by simp
  then obtain y ys where ys: "filter ?P kvs = y # ys"
    by (cases "filter ?P kvs") auto
  then have "y \<in> set (filter ?P kvs)"
    by simp
  then have "y \<in> set kvs" and "?P y"
    by simp_all
  with assms(2) have "y = (k, v)"
    by blast
  with ys show ?thesis
    by simp
qed

lemma mem_values:
  assumes "map_of kvs k = Some v"
  shows "v \<in> set (map snd (filter (\<lambda>kv. CanonicalHeaderKey (fst kv) = CanonicalHeaderKey k) kvs))"
proof -
  from assms have "(k, v) \<in> set kvs"
    by (rule map_of_SomeD)
  then have "(k, v) \<in> set (filter (\<lambda>kv. CanonicalHeaderKey (fst kv) = CanonicalHeaderKey k) kvs)"
    by simp
  then have "snd (k, v) \<in>
      snd ` set (filter (\<lambda>kv. CanonicalHeaderKey (fst kv) = CanonicalHeaderKey k) kvs)"
    by (rule imageI)
  then show ?thesis
    by simp
qed

section \<open>The bound on retries\<close>

lemma is_handshake_cong: "AuthUrl c' = AuthUrl c \<Longrightarrow> is_handshake c' = is_handshake c"
proof (intro ext)
  fix e assume "AuthUrl c' = AuthUrl c"
  then show "is_handshake c' e = is_handshake c e"
    by (cases e) simp_all
qed

lemma handshakes_cong: "AuthUrl c' = AuthUrl c \<Longrightarrow> handshakes c' w = handshakes c w"
  using is_handshake_cong [of c' c] by (simp add: handshakes_def)

lemma storage_request_no_handshake:
  "\<not> is_handshake c (Sent \<lparr>reqMethod = m, reqURL = u, reqHeader = storage_headers c1 p [],
                              reqBody = rd\<rparr>)"
proof -
  have "Header_values (storage_headers c1 p []) ''X-Auth-Token'' \<noteq> []"
    unfolding storage_headers_values by simp
  then have "map_of (storage_headers c1 p []) ''X-Auth-Token'' \<noteq> None"
    by (auto simp add: Header_values_def split: option.splits)
  then show ?thesis
    by simp
qed


lemma auth_request_is_handshake:
  "AuthUrl c' = AuthUrl c \<Longrightarrow>
   is_handshake c (Sent (Authenticate_request c'
      \<lparr>reqMethod = ''GET'', reqURL = AuthUrl c', reqHeader = [], reqBody = None\<rparr>))"
  by (simp add: Authenticate_request_def Header_Set_def canon_consts update_conv')

lemma Authenticate_good:
  assumes "newRequestErr L ''GET'' (AuthUrl c) = None"
    and "script w = a # rest" and "good_handshake a"
  shows "\<exists>c1 w1. Authenticate L c w = (None, c1, w1) \<and> Authenticated c1 \<and> script w1 = rest \<and>
           served w1 = served w + 1 \<and>
           log w1 = log w @ [IdleClosed,
                             Sent (Authenticate_request c1
                                     \<lparr>reqMethod = ''GET'', reqURL = AuthUrl c, reqHeader = [],
                                        reqBody = None\<rparr>),
                             BodyClosed (served w), IdleClosed] \<and>
           AuthUrl c1 = AuthUrl c"
proof -
  obtain n r where a: "a = (n, Inr r)" and sc: "200 \<le> StatusCode r" "StatusCode r \<le> 299"
    and u: "Header_Get (Header r) ''X-Storage-Url'' \<noteq> ''''"
    and t: "Header_Get (Header r) ''X-Auth-Token'' \<noteq> ''''"
    and ce: "cerr (Body r) = None"
  proof (cases a)
    case (Pair n x)
    with assms(3) that show ?thesis
      by (cases x) (auto simp add: good_handshake_def)
  qed
  have scr: "script w = (n, Inr r) # rest"
    using assms(2) a by simp
  have ph: "parseHeaders (r\<lparr>Body := (Body r)\<lparr>bid := served w\<rparr>\<rparr>) (Some authErrorMap) = None"
    using sc by (simp add: parseHeaders_auth_2xx)
  show ?thesis
    unfolding Authenticate_unfold
    using assms(1) scr ph u t ce
    by (auto simp add: Authenticated_def Authenticate_request_def)
qed

lemma storage_attempt_good:
  assumes "\<not> Authenticated c" and "\<forall>m u. newRequestErr L m u = None"
    and "script w = a # (m, Inr r) # rest" and "good_handshake a"
  shows "\<exists>c1 w1 rd1.
           storage_attempt L p rs c w rd
             = Inr (r\<lparr>Body := (Body r)\<lparr>bid := served w + 1\<rparr>\<rparr>, c1, w1, rd1) \<and>
           Authenticated c1 \<and> AuthUrl c1 = AuthUrl c \<and> script w1 = rest \<and>
           handshakes c w1 = handshakes c w + 1"
proof -
  from assms(2) have nr: "newRequestErr L ''GET'' (AuthUrl c) = None"
    by simp
  from Authenticate_good [OF nr assms(3) assms(4)]
  obtain c1 w0 where au: "Authenticate L c w = (None, c1, w0)" and a1: "Authenticated c1"
    and s0: "script w0 = (m, Inr r) # rest" and sv: "served w0 = served w + 1"
    and l0: "log w0 = log w @ [IdleClosed,
                             Sent (Authenticate_request c1
                                     \<lparr>reqMethod = ''GET'', reqURL = AuthUrl c, reqHeader = [],
                                        reqBody = None\<rparr>),
                             BodyClosed (served w), IdleClosed]"
    and url: "AuthUrl c1 = AuthUrl c"
    by blast
  let ?req = "\<lparr>reqMethod = operation p, reqURL = storage_url L c1 p,
               reqHeader = storage_headers c1 p [], reqBody = rd\<rparr>"
  let ?w1 = "emit (Sent ?req) (w0\<lparr>served := served w0 + 1\<rparr>)\<lparr>script := rest\<rparr>"
  have eq: "storage_attempt L p rs c w rd
              = Inr (r\<lparr>Body := (Body r)\<lparr>bid := served w + 1\<rparr>\<rparr>, c1, ?w1,
                     map_option (consume m) rd)"
    using assms(1,2) au sv
    by (simp add: storage_attempt_def NewRequest_def client_Do_answer [OF s0])
  have h1: "is_handshake c (Sent (Authenticate_request c1
              \<lparr>reqMethod = ''GET'', reqURL = AuthUrl c, reqHeader = [], reqBody = None\<rparr>))"
    using auth_request_is_handshake [of c1 c] url by simp
  have h2: "\<not> is_handshake c (Sent ?req)"
    by (rule storage_request_no_handshake)
  have hs: "handshakes c ?w1 = handshakes c w + 1"
    using h1 h2 by (simp add: handshakes_def l0)
  show ?thesis
    using eq a1 url hs by (intro exI [of _ c1] exI [of _ ?w1] exI) auto
qed

lemma expires_0D:
  assumes "expires p 0 s"
  obtains a m r rest where "s = a # (m, Inr r) # rest" "good_handshake a"
    "200 \<le> StatusCode r" "StatusCode r \<le> 299"
    "(case errorMap p of None \<Rightarrow> None | Some em \<Rightarrow> em (StatusCode r)) = None"
    "noResponse p \<longrightarrow> cerr (Body r) = None"
proof -
  from assms obtain a x rest where s: "s = a # x # rest"
    and g: "good_handshake a" and ok: "answers_success p x"
    by (cases "(p, 0::nat, s)" rule: expires.cases) auto
  obtain m y where x: "x = (m, y)"
    by (cases x)
  from ok x obtain r where y: "y = Inr r"
    by (cases y) (auto simp add: answers_success_def)
  from ok x y have "200 \<le> StatusCode r" "StatusCode r \<le> 299"
    "(case errorMap p of None \<Rightarrow> None | Some em \<Rightarrow> em (StatusCode r)) = None"
    "noResponse p \<longrightarrow> cerr (Body r) = None"
    by (auto simp add: answers_success_def split: option.splits)
  with s g x y that show ?thesis
    by blast
qed

lemma expires_SucD:
  assumes "expires p (Suc k) s"
  obtains a m r rest where "s = a # (m, Inr r) # rest" "good_handshake a"
    "StatusCode r = 401" "expires p k rest"
proof -
  from assms obtain a x rest where s: "s = a # x # rest"
    and g: "good_handshake a" and u: "answers_401 x" and e: "expires p k rest"
    by (cases "(p, Suc k, s)" rule: expires.cases) auto
  obtain m y where x: "x = (m, y)"
    by (cases x)
  from u x obtain r where y: "y = Inr r" and "StatusCode r = 401"
    by (cases y) (auto simp add: answers_401_def)
  with s g x e that show ?thesis
    by blast
qed

lemma handshakes_body_Close [simp]:
  "handshakes c (snd (body_Close b w)) = handshakes c w"
  by (simp add: handshakes_def)

lemma handshakes_emit_BodyClosed [simp]:
  "handshakes c (emit (BodyClosed i) w) = handshakes c w"
  by (simp add: handshakes_def)

lemma storage_loop_within_budget:
  "\<not> Authenticated c \<Longrightarrow> \<forall>m u. newRequestErr L m u = None \<Longrightarrow> expires p k (script w) \<Longrightarrow>
   int k \<le> n \<Longrightarrow>
   \<exists>resp c1 w1 rd1. storage_loop L p n rs c w rd = Inr (resp, c1, w1, rd1) \<and>
      parseHeaders resp (errorMap p) = None \<and> (noResponse p \<longrightarrow> cerr (Body resp) = None) \<and>
      handshakes c w1 = handshakes c w + k + 1"
proof (induction k arbitrary: n rs c w rd)
  case 0
  from "0.prems"(3) obtain a m r rest where s: "script w = a # (m, Inr r) # rest"
    and g: "good_handshake a" and sc: "200 \<le> StatusCode r" "StatusCode r \<le> 299"
    and um: "(case errorMap p of None \<Rightarrow> None | Some em \<Rightarrow> em (StatusCode r)) = None"
    and ce: "noResponse p \<longrightarrow> cerr (Body r) = None"
    by (rule expires_0D)
  let ?r = "r\<lparr>Body := (Body r)\<lparr>bid := served w + 1\<rparr>\<rparr>"
  from storage_attempt_good [OF "0.prems"(1,2) s g, of p rs rd]
  obtain c1 w1 rd1 where att: "storage_attempt L p rs c w rd = Inr (?r, c1, w1, rd1)"
    and hs: "handshakes c w1 = handshakes c w + 1"
    by blast
  from sc have "StatusCode ?r \<noteq> 401"
    by simp
  with storage_loop_unfold [OF att, of n]
  have l: "storage_loop L p n rs c w rd = Inr (?r, c1, w1, rd1)"
    by simp
  from um have "(case errorMap p of None \<Rightarrow> None | Some em \<Rightarrow> em (StatusCode ?r)) = None"
    by (cases "errorMap p") simp_all
  from parseHeaders_unmapped [OF this] sc have ph: "parseHeaders ?r (errorMap p) = None"
    by simp
  from l ph ce hs show ?case
    by simp
next
  case (Suc k)
  from Suc.prems(3) obtain a m r rest where s: "script w = a # (m, Inr r) # rest"
    and g: "good_handshake a" and sc: "StatusCode r = 401" and e: "expires p k rest"
    by (rule expires_SucD)
  let ?r = "r\<lparr>Body := (Body r)\<lparr>bid := served w + 1\<rparr>\<rparr>"
  from storage_attempt_good [OF Suc.prems(1,2) s g, of p rs rd]
  obtain c1 w1 rd1 where att: "storage_attempt L p rs c w rd = Inr (?r, c1, w1, rd1)"
    and url: "AuthUrl c1 = AuthUrl c" and s1: "script w1 = rest"
    and hs: "handshakes c w1 = handshakes c w + 1"
    by blast
  let ?c = "UnAuthenticate c1"
  let ?w = "snd (body_Close (Body ?r) w1)"
  from sc Suc.prems(4) storage_loop_unfold [OF att, of n]
  have l: "storage_loop L p n rs c w rd = storage_loop L p (n - 1) (Some ?r) ?c ?w rd1"
    by simp
  have na: "\<not> Authenticated ?c"
    by (simp add: UnAuthenticate_def Authenticated_def)
  have e': "expires p k (script ?w)"
    using e s1 by simp
  have n': "int k \<le> n - 1"
    using Suc.prems(4) by simp
  have url': "AuthUrl ?c = AuthUrl c"
    using url by (simp add: UnAuthenticate_def)
  from Suc.IH [OF na Suc.prems(2) e' n', of "Some ?r" rd1]
  obtain resp c2 w2 rd2 where l2: "storage_loop L p (n - 1) (Some ?r) ?c ?w rd1 = Inr (resp, c2, w2, rd2)"
    and ph: "parseHeaders resp (errorMap p) = None"
    and ce: "noResponse p \<longrightarrow> cerr (Body resp) = None"
    and hs2: "handshakes ?c w2 = handshakes ?c ?w + k + 1"
    by blast
  from hs2 hs have "handshakes c w2 = handshakes c w + Suc k + 1"
    by (simp add: handshakes_cong [OF url'])
  with l l2 ph ce show ?case
    by simp
qed

lemma storage_loop_exhausted:
  "\<not> Authenticated c \<Longrightarrow> \<forall>m u. newRequestErr L m u = None \<Longrightarrow> expires p k (script w) \<Longrightarrow>
   0 \<le> n \<Longrightarrow> n < int k \<Longrightarrow>
   \<exists>resp c1 w1 rd1. storage_loop L p n rs c w rd = Inr (resp, c1, w1, rd1) \<and>
      StatusCode resp = 401 \<and> handshakes c w1 = handshakes c w + nat n + 1"
proof (induction k arbitrary: n rs c w rd)
  case 0
  then show ?case
    by simp
next
  case (Suc k)
  from Suc.prems(3) obtain a m r rest where s: "script w = a # (m, Inr r) # rest"
    and g: "good_handshake a" and sc: "StatusCode r = 401" and e: "expires p k rest"
    by (rule expires_SucD)
  let ?r = "r\<lparr>Body := (Body r)\<lparr>bid := served w + 1\<rparr>\<rparr>"
  from storage_attempt_good [OF Suc.prems(1,2) s g, of p rs rd]
  obtain c1 w1 rd1 where att: "storage_attempt L p rs c w rd = Inr (?r, c1, w1, rd1)"
    and url: "AuthUrl c1 = AuthUrl c" and s1: "script w1 = rest"
    and hs: "handshakes c w1 = handshakes c w + 1"
    by blast
  show ?case
  proof (cases "n = 0")
    case True
    with storage_loop_unfold [OF att, of n]
    have "storage_loop L p n rs c w rd = Inr (?r, c1, w1, rd1)"
      by simp
    with sc hs True show ?thesis
      by simp
  next
    case False
    with Suc.prems(4) have pos: "0 < n"
      by simp
    let ?c = "UnAuthenticate c1"
    let ?w = "snd (body_Close (Body ?r) w1)"
    from sc pos storage_loop_unfold [OF att, of n]
    have l: "storage_loop L p n rs c w rd = storage_loop L p (n - 1) (Some ?r) ?c ?w rd1"
      by simp
    have na: "\<not> Authenticated ?c"
      by (simp add: UnAuthenticate_def Authenticated_def)
    have e': "expires p k (script ?w)"
      using e s1 by simp
    have n0: "0 \<le> n - 1" and n1: "n - 1 < int k"
      using pos Suc.prems(5) by simp_all
    have url': "AuthUrl ?c = AuthUrl c"
      using url by (simp add: UnAuthenticate_def)
    from Suc.IH [OF na Suc.prems(2) e' n0 n1, of "Some ?r" rd1]
    obtain resp c2 w2 rd2 where
      l2: "storage_loop L p (n - 1) (Some ?r) ?c ?w rd1 = Inr (resp, c2, w2, rd2)"
      and r2: "StatusCode resp = 401"
      and hs2: "handshakes ?c w2 = handshakes ?c ?w + nat (n - 1) + 1"
      by blast
    from hs2 hs pos have "handshakes c w2 = handshakes c w + nat n + 1"
      by (simp add: handshakes_cong [OF url'] nat_diff_distrib)
    with l l2 r2 show ?thesis
      by simp
  qed
qed

lemma parseHeaders_401:
  "StatusCode resp = 401 \<Longrightarrow>
   parseHeaders resp em =
     Some (case (case em of None \<Rightarrow> None | Some m \<Rightarrow> m 401) of
             Some e \<Rightarrow> e
           | None \<Rightarrow> Error 401 (''HTTP Error: 401: '' @ Status resp))"
  by (simp add: parseHeaders_def newError_def Itoa_401 split: option.splits)

text \<open>
  Claim C1. The retry budget \<open>r\<close> of a call is \<open>p.retries\<close>, or \<open>c.Retries\<close> when
  \<open>p.retries\<close> is 0. From an unauthenticated session, with a transport that answers every
  handshake well and the request for the resource with 401 exactly \<open>k\<close> times and then
  with a success: when \<open>r \<ge> k\<close> the dispatcher succeeds and has performed \<open>k + 1\<close>
  handshakes; when \<open>0 \<le> r < k\<close> it fails with the error that classifies the 401 (the
  mapped error, or the generic HTTP error for 401), after \<open>r + 1\<close> handshakes. The loop
  repeats exactly when the response has status 401 and retries remain: a turn that returns
  ends the loop, and a response that is received ends it unless its status is 401 with
  \<open>n > 0\<close>.
\<close>

theorem storage_retry_bound:
  assumes "\<not> Authenticated c" and "\<forall>m u. newRequestErr L m u = None"
    and "expires p k (script w)"
  shows "(int k \<le> (if retries p = 0 then Retries c else retries p) \<longrightarrow>
          (\<exists>resp hdrs c1 w1 rd1.
             storage L p c w = ((Some resp, Some hdrs, None), c1, w1, rd1) \<and>
             handshakes c w1 = handshakes c w + k + 1))
     \<and> (0 \<le> (if retries p = 0 then Retries c else retries p) \<and>
        (if retries p = 0 then Retries c else retries p) < int k \<longrightarrow>
          (\<exists>resp c1 w1 rd1.
             storage L p c w = ((None, None, parseHeaders resp (errorMap p)), c1, w1, rd1) \<and>
             StatusCode resp = 401 \<and>
             parseHeaders resp (errorMap p) =
               Some (case (case errorMap p of None \<Rightarrow> None | Some m \<Rightarrow> m 401) of
                       Some e \<Rightarrow> e
                     | None \<Rightarrow> Error 401 (''HTTP Error: 401: '' @ Status resp)) \<and>
             handshakes c w1
               = handshakes c w + nat (if retries p = 0 then Retries c else retries p) + 1))
     \<and> (storage_attempt L' p' rs c' w' rd = Inl out \<longrightarrow>
          storage_loop L' p' n rs c' w' rd = Inl out)
     \<and> (storage_attempt L' p' rs c' w' rd = Inr (resp', c1', w1', rd1') \<longrightarrow>
          storage_loop L' p' n rs c' w' rd =
            (if StatusCode resp' = 401 \<and> n > 0
             then storage_loop L' p' (n - 1) (Some resp') (UnAuthenticate c1')
                    (snd (body_Close (Body resp') w1')) rd1'
             else Inr (resp', c1', w1', rd1')))"
proof -
  let ?n = "if retries p = 0 then Retries c else retries p"
  have 1: "int k \<le> ?n \<longrightarrow>
          (\<exists>resp hdrs c1 w1 rd1.
             storage L p c w = ((Some resp, Some hdrs, None), c1, w1, rd1) \<and>
             handshakes c w1 = handshakes c w + k + 1)"
  proof
    assume "int k \<le> ?n"
    from storage_loop_within_budget [OF assms this, of None "body p"]
    obtain resp c1 w1 rd1 where
      l: "storage_loop L p ?n None c w (body p) = Inr (resp, c1, w1, rd1)"
      and ph: "parseHeaders resp (errorMap p) = None"
      and ce: "noResponse p \<longrightarrow> cerr (Body resp) = None"
      and hs: "handshakes c w1 = handshakes c w + k + 1"
      by blast
    show "\<exists>resp hdrs c1 w1 rd1.
             storage L p c w = ((Some resp, Some hdrs, None), c1, w1, rd1) \<and>
             handshakes c w1 = handshakes c w + k + 1"
    proof (cases "noResponse p")
      case True
      with l ph ce have "storage L p c w =
          ((Some resp, Some (readHeaders resp), None), c1,
           emit (BodyClosed (bid (Body resp))) w1, rd1)"
        by (simp add: storage_def Let_def body_Close_def)
      with hs show ?thesis
        by simp
    next
      case False
      with l ph have "storage L p c w = ((Some resp, Some (readHeaders resp), None), c1, w1, rd1)"
        by (simp add: storage_def Let_def)
      with hs show ?thesis
        by simp
    qed
  qed
  have 2: "0 \<le> ?n \<and> ?n < int k \<longrightarrow>
          (\<exists>resp c1 w1 rd1.
             storage L p c w = ((None, None, parseHeaders resp (errorMap p)), c1, w1, rd1) \<and>
             StatusCode resp = 401 \<and>
             parseHeaders resp (errorMap p) =
               Some (case (case errorMap p of None \<Rightarrow> None | Some m \<Rightarrow> m 401) of
                       Some e \<Rightarrow> e
                     | None \<Rightarrow> Error 401 (''HTTP Error: 401: '' @ Status resp)) \<and>
             handshakes c w1 = handshakes c w + nat ?n + 1)"
  proof (intro impI, elim conjE)
    assume n0: "0 \<le> ?n" and n1: "?n < int k"
    from storage_loop_exhausted [OF assms n0 n1, of None "body p"]
    obtain resp c1 w1 rd1 where
      l: "storage_loop L p ?n None c w (body p) = Inr (resp, c1, w1, rd1)"
      and sc: "StatusCode resp = 401"
      and hs: "handshakes c w1 = handshakes c w + nat ?n + 1"
      by blast
    note ph = parseHeaders_401 [OF sc, of "errorMap p"]
    from storage_of_loop_error [OF l ph]
    have "storage L p c w = ((None, None, parseHeaders resp (errorMap p)), c1,
                              snd (body_Close (Body resp) w1), rd1)"
      by (simp only: ph)
    with sc ph hs show "\<exists>resp c1 w1 rd1.
             storage L p c w = ((None, None, parseHeaders resp (errorMap p)), c1, w1, rd1) \<and>
             StatusCode resp = 401 \<and>
             parseHeaders resp (errorMap p) =
               Some (case (case errorMap p of None \<Rightarrow> None | Some m \<Rightarrow> m 401) of
                       Some e \<Rightarrow> e
                     | None \<Rightarrow> Error 401 (''HTTP Error: 401: '' @ Status resp)) \<and>
             handshakes c w1 = handshakes c w + nat ?n + 1"
      by (intro exI [of _ resp] exI [of _ c1] exI [of _ "snd (body_Close (Body resp) w1)"]
            exI [of _ rd1]) simp
  qed
  have 3: "storage_attempt L' p' rs c' w' rd = Inl out \<longrightarrow>
          storage_loop L' p' n rs c' w' rd = Inl out"
    by (subst storage_loop.simps) simp
  have 4: "storage_attempt L' p' rs c' w' rd = Inr (resp', c1', w1', rd1') \<longrightarrow>
          storage_loop L' p' n rs c' w' rd =
            (if StatusCode resp' = 401 \<and> n > 0
             then storage_loop L' p' (n - 1) (Some resp') (UnAuthenticate c1')
                    (snd (body_Close (Body resp') w1')) rd1'
             else Inr (resp', c1', w1', rd1'))"
    using storage_loop_unfold by blast
  show ?thesis
    by (rule conjI [OF 1 conjI [OF 2 conjI [OF 3 4]]])
qed

theorem storage_retry_bound_witness:
  "\<not> Authenticated (UnAuthenticate conn0)
   \<and> expires Account_opts 1 (script (world0 [grant, deny, grant, accept]))
   \<and> int 1 \<le> (if retries Account_opts = 0 then Retries (UnAuthenticate conn0)
                 else retries Account_opts)
   \<and> (\<exists>resp hdrs c1 w1 rd1.
         storage lib0 Account_opts (UnAuthenticate conn0) (world0 [grant, deny, grant, accept])
           = ((Some resp, Some hdrs, None), c1, w1, rd1) \<and>
         handshakes (UnAuthenticate conn0) w1
           = handshakes (UnAuthenticate conn0) (world0 [grant, deny, grant, accept]) + 1 + 1)
   \<and> handshakes (UnAuthenticate conn0)
         (fst (snd (snd (storage lib0 Account_opts (UnAuthenticate conn0)
                           (world0 [grant, deny, grant, accept]))))) = 2
   \<and> expires (Account_opts\<lparr>retries := 1\<rparr>) 2
         (script (world0 [grant, deny, grant, deny, grant, accept]))
   \<and> 0 \<le> (if retries (Account_opts\<lparr>retries := 1\<rparr>) = 0 then Retries (UnAuthenticate conn0)
            else retries (Account_opts\<lparr>retries := 1\<rparr>))
   \<and> (if retries (Account_opts\<lparr>retries := 1\<rparr>) = 0 then Retries (UnAuthenticate conn0)
        else retries (Account_opts\<lparr>retries := 1\<rparr>)) < int 2
   \<and> (\<exists>resp c1 w1 rd1.
         storage lib0 (Account_opts\<lparr>retries := 1\<rparr>) (UnAuthenticate conn0)
             (world0 [grant, deny, grant, deny, grant, accept])
           = ((None, None, parseHeaders resp (errorMap (Account_opts\<lparr>retries := 1\<rparr>))),
              c1, w1, rd1) \<and>
         StatusCode resp = 401 \<and>
         parseHeaders resp (errorMap (Account_opts\<lparr>retries := 1\<rparr>)) =
           Some (case (case errorMap (Account_opts\<lparr>retries := 1\<rparr>) of
                         None \<Rightarrow> None | Some m \<Rightarrow> m 401) of
                   Some e \<Rightarrow> e
                 | None \<Rightarrow> Error 401 (''HTTP Error: 401: '' @ Status resp)) \<and>
         handshakes (UnAuthenticate conn0) w1
           = handshakes (UnAuthenticate conn0) (world0 [grant, deny, grant, deny, grant, accept])
             + nat (if retries (Account_opts\<lparr>retries := 1\<rparr>) = 0
                    then Retries (UnAuthenticate conn0)
                    else retries (Account_opts\<lparr>retries := 1\<rparr>)) + 1)
   \<and> fst (storage lib0 (Account_opts\<lparr>retries := 1\<rparr>) (UnAuthenticate conn0)
              (world0 [grant, deny, grant, deny, grant, accept]))
       = (None, None, Some (Error 401 ''HTTP Error: 401: 401 Unauthorized''))
   \<and> storage_attempt lib0 Account_opts None conn0 (world0 []) None
       = Inl (None, Foreign ''transport: no answer'', conn0,
              sent0 ''HEAD'' ''https://store/v1/a'' [], None)
   \<and> storage_loop lib0 Account_opts 3 None conn0 (world0 []) None
       = Inl (None, Foreign ''transport: no answer'', conn0,
              sent0 ''HEAD'' ''https://store/v1/a'' [], None)
   \<and> storage_attempt lib0 Account_opts None conn0 (world0 [accept]) None
       = Inr (resp0 204 ''204 No Content'' [], conn0, sent0 ''HEAD'' ''https://store/v1/a'' [], None)
   \<and> storage_loop lib0 Account_opts 3 None conn0 (world0 [accept]) None
       = (if StatusCode (resp0 204 ''204 No Content'' []) = 401 \<and> (3 :: int) > 0
          then storage_loop lib0 Account_opts (3 - 1) (Some (resp0 204 ''204 No Content'' []))
                 (UnAuthenticate conn0)
                 (snd (body_Close (Body (resp0 204 ''204 No Content'' []))
                         (sent0 ''HEAD'' ''https://store/v1/a'' []))) None
          else Inr (resp0 204 ''204 No Content'' [], conn0,
                    sent0 ''HEAD'' ''https://store/v1/a'' [], None))"
proof -
  let ?c = "UnAuthenticate conn0"
  let ?w1 = "world0 [grant, deny, grant, accept]"
  let ?w2 = "world0 [grant, deny, grant, deny, grant, accept]"
  let ?q = "Account_opts\<lparr>retries := 1\<rparr>"
  have na: "\<not> Authenticated ?c"
    by code_simp
  have nr: "\<forall>m u. newRequestErr lib0 m u = None"
    by (simp add: lib0_def)
  have e1: "expires Account_opts 1 (script ?w1)"
    by code_simp
  have b1: "int 1 \<le> (if retries Account_opts = 0 then Retries ?c else retries Account_opts)"
    by code_simp
  have e2: "expires ?q 2 (script ?w2)"
    by code_simp
  have b2: "0 \<le> (if retries ?q = 0 then Retries ?c else retries ?q)"
    and b3: "(if retries ?q = 0 then Retries ?c else retries ?q) < int 2"
    by code_simp+
  have v1: "handshakes ?c (fst (snd (snd (storage lib0 Account_opts ?c ?w1)))) = 2"
    by code_simp
  have v2: "fst (storage lib0 ?q ?c ?w2)
              = (None, None, Some (Error 401 ''HTTP Error: 401: 401 Unauthorized''))"
    by code_simp
  have a1: "storage_attempt lib0 Account_opts None conn0 (world0 []) None
       = Inl (None, Foreign ''transport: no answer'', conn0,
              sent0 ''HEAD'' ''https://store/v1/a'' [], None)"
    by code_simp
  have a2: "storage_attempt lib0 Account_opts None conn0 (world0 [accept]) None
       = Inr (resp0 204 ''204 No Content'' [], conn0, sent0 ''HEAD'' ''https://store/v1/a'' [], None)"
    by code_simp
  note t1 = storage_retry_bound [OF na nr e1]
  note t2 = storage_retry_bound [OF na nr e2]
  note c1 = t1 [THEN conjunct1, THEN mp, OF b1]
  note c2 = t2 [THEN conjunct2, THEN conjunct1, THEN mp, OF conjI [OF b2 b3]]
  note t3 = storage_retry_bound [where n = 3, OF na nr e1]
  note c3 = t3 [THEN conjunct2, THEN conjunct2, THEN conjunct1, THEN mp, OF a1]
  note c4 = t3 [THEN conjunct2, THEN conjunct2, THEN conjunct2, THEN mp, OF a2]
  show ?thesis
    by (intro conjI na e1 b1 c1 v1 e2 b2 b3 c2 v2 a1 c3 a2 c4)
qed

section \<open>Metadata to headers and back\<close>

lemma of_char_dash: "(of_char (CHR ''-'') :: nat) = 45"
  by simp

lemma lowerByte_upper_val:
  "isUpperAscii v \<Longrightarrow> (of_char (lowerByte v) :: nat) = of_char v + 32"
  unfolding lowerByte_def isUpperAscii_def by (simp add: of_char_of)

lemma lowerByte_upper:
  assumes "isUpperAscii v"
  shows "isLowerAscii (lowerByte v) \<and> \<not> isUpperAscii (lowerByte v) \<and>
     upperByte (lowerByte v) = v \<and> lowerByte v \<noteq> CHR ''-'' \<and> v \<noteq> CHR ''-'' \<and>
     \<not> isLowerAscii v"
proof -
  note n = lowerByte_upper_val [OF assms]
  from assms have r: "65 \<le> (of_char v :: nat)" "(of_char v :: nat) \<le> 90"
    by (simp_all add: isUpperAscii_def)
  have 1: "isLowerAscii (lowerByte v)" "\<not> isUpperAscii (lowerByte v)"
    using n r by (simp_all add: isLowerAscii_def isUpperAscii_def)
  have 2: "upperByte (lowerByte v) = v"
    using 1 n by (simp add: upperByte_def)
  have 3: "lowerByte v \<noteq> CHR ''-''"
  proof
    assume "lowerByte v = CHR ''-''"
    then have "(of_char (lowerByte v) :: nat) = of_char (CHR ''-'')"
      by simp
    with n r show False
      by simp
  qed
  have 4: "v \<noteq> CHR ''-''"
  proof
    assume "v = CHR ''-''"
    then have "(of_char v :: nat) = of_char (CHR ''-'')"
      by simp
    with r show False
      by simp
  qed
  have 5: "\<not> isLowerAscii v"
    using r by (simp add: isLowerAscii_def)
  from 1 2 3 4 5 show ?thesis
    by simp
qed

lemma lowerByte_other: "\<not> isUpperAscii v \<Longrightarrow> lowerByte v = v"
  by (simp add: lowerByte_def)

lemma lowerByte_idem: "lowerByte (lowerByte v) = lowerByte v"
  by (cases "isUpperAscii v") (simp_all add: lowerByte_upper lowerByte_other)

lemma lowerByte_upperByte: "lowerByte (upperByte v) = lowerByte v"
  unfolding lowerByte_def upperByte_def isLowerAscii_def isUpperAscii_def
  by (auto simp add: of_char_of)

text \<open>One step of the canonical form.\<close>

lemma canon_step_lower:
  "(if b \<and> isLowerAscii (lowerByte v) then upperByte (lowerByte v)
    else if \<not> b \<and> isUpperAscii (lowerByte v) then lowerByte (lowerByte v)
    else lowerByte v)
   = (if b \<and> isLowerAscii v then upperByte v
      else if \<not> b \<and> isUpperAscii v then lowerByte v
      else v)"
  by (cases "isUpperAscii v") (auto simp add: lowerByte_upper lowerByte_other)

lemma dash_lower: "(lowerByte v = CHR ''-'') = (v = CHR ''-'')"
  by (cases "isUpperAscii v") (auto simp add: lowerByte_upper lowerByte_other)

lemma canonical_of_lower:
  "canonicalMIMEHeaderKey_loop b (map lowerByte s) = canonicalMIMEHeaderKey_loop b s"
  by (induction s arbitrary: b) (simp_all add: canon_step_lower dash_lower)

lemma lower_of_canonical:
  "map lowerByte (canonicalMIMEHeaderKey_loop b s) = map lowerByte s"
  by (induction s arbitrary: b) (simp_all add: lowerByte_upperByte lowerByte_idem)

lemma length_canonical [simp]: "length (canonicalMIMEHeaderKey_loop b s) = length s"
  by (induction s arbitrary: b) simp_all

lemma canonical_append:
  "canonicalMIMEHeaderKey_loop b (p @ k) =
     canonicalMIMEHeaderKey_loop b p @
     canonicalMIMEHeaderKey_loop (if p = [] then b else last p = CHR ''-'') k"
  by (induction p arbitrary: b) simp_all

text \<open>Valid bytes are ASCII, and the loop keeps a string in ASCII.\<close>

lemma valid_isASCII: "validHeaderFieldByte v \<Longrightarrow> isASCII v"
  by (auto simp add: validHeaderFieldByte_def isASCII_def isLowerAscii_def isUpperAscii_def)

lemma isASCII_upperByte: "isASCII v \<Longrightarrow> isASCII (upperByte v)"
  by (auto simp add: isASCII_def upperByte_def isLowerAscii_def of_char_of)

lemma isASCII_lowerByte: "isASCII v \<Longrightarrow> isASCII (lowerByte v)"
  by (auto simp add: isASCII_def lowerByte_def isUpperAscii_def of_char_of)

lemma isASCII_loop:
  "list_all isASCII s \<Longrightarrow> list_all isASCII (canonicalMIMEHeaderKey_loop b s)"
  by (induction s arbitrary: b) (simp_all add: isASCII_upperByte isASCII_lowerByte)

lemma token_isASCII: "header_token s \<Longrightarrow> list_all isASCII s"
  unfolding header_token_def by (induction s) (simp_all add: valid_isASCII)

lemma ToLower_ASCII: "list_all isASCII s \<Longrightarrow> ToLower L s = map lowerByte s"
  by (simp add: ToLower_def)

lemma ToLower_token: "header_token s \<Longrightarrow> ToLower L s = map lowerByte s"
  by (simp add: ToLower_ASCII token_isASCII)

lemma length_CanonicalHeaderKey [simp]: "length (CanonicalHeaderKey s) = length s"
  by (simp add: CanonicalHeaderKey_def canonicalMIMEHeaderKey_def)

lemma map_of_fold_update:
  "map_of (fold (\<lambda>(k, v) h. AList.update (f k) v h) m acc) =
     map_of (rev (map (\<lambda>(k, v). (f k, v)) m) @ acc)"
proof (induction m arbitrary: acc)
  case Nil
  then show ?case
    by simp
next
  case (Cons x m)
  obtain k v where x: "x = (k, v)"
    by (cases x)
  have "map_of (AList.update (f k) v acc) = map_of ((f k, v) # acc)"
    by (simp add: update_conv')
  then have "map_of (rev (map (\<lambda>(k, v). (f k, v)) m) @ AList.update (f k) v acc)
           = map_of (rev (map (\<lambda>(k, v). (f k, v)) m) @ (f k, v) # acc)"
    by (simp only: map_of_append)
  with Cons.IH [of "AList.update (f k) v acc"] x show ?case
    by simp
qed

lemma fold_filter_update:
  "fold (\<lambda>(key, val) m. if P key then AList.update (T key) val m else m) h acc =
   fold (\<lambda>(key, val) m. AList.update (T key) val m) (filter (\<lambda>kv. P (fst kv)) h) acc"
  by (induction h arbitrary: acc) (auto split: prod.splits)

lemma map_of_map_key_inj:
  "inj_on T (insert a (fst ` set xs)) \<Longrightarrow>
   map_of (map (\<lambda>(k, v). (T k, v)) xs) (T a) = map_of xs a"
proof (induction xs)
  case Nil
  then show ?case
    by simp
next
  case (Cons x xs)
  obtain k v where x: "x = (k, v)"
    by (cases x)
  from Cons.prems have inj: "inj_on T (insert a (fst ` set xs))"
    by (rule inj_on_subset) auto
  from Cons.prems x have "(T a = T k) = (a = k)"
    by (auto simp add: inj_on_def)
  with Cons.IH [OF inj] x show ?case
    by auto
qed

lemma map_of_map_key_None:
  "x \<notin> T ` fst ` set xs \<Longrightarrow> map_of (map (\<lambda>(k, v). (T k, v)) xs) x = None"
  by (induction xs) (auto split: prod.splits)

lemma map_of_map_key_cong:
  assumes "map_of xs = map_of ys" and "inj_on T (fst ` set xs \<union> fst ` set ys)"
  shows "map_of (map (\<lambda>(k, v). (T k, v)) xs) = map_of (map (\<lambda>(k, v). (T k, v)) ys)"
proof
  fix x
  from assms(1) have d: "fst ` set xs = fst ` set ys"
    by (metis dom_map_of_conv_image_fst)
  show "map_of (map (\<lambda>(k, v). (T k, v)) xs) x = map_of (map (\<lambda>(k, v). (T k, v)) ys) x"
  proof (cases "x \<in> T ` fst ` set xs")
    case True
    then obtain a where a: "a \<in> fst ` set xs" and x: "x = T a"
      by blast
    have i1: "inj_on T (insert a (fst ` set xs))"
      using assms(2) by (rule inj_on_subset) (use a in auto)
    have i2: "inj_on T (insert a (fst ` set ys))"
      using assms(2) by (rule inj_on_subset) (use a d in auto)
    from map_of_map_key_inj [OF i1] map_of_map_key_inj [OF i2] assms(1) x show ?thesis
      by simp
  next
    case False
    with d have "x \<notin> T ` fst ` set ys"
      by simp
    with False show ?thesis
      by (simp add: map_of_map_key_None)
  qed
qed

lemma map_of_rev_distinct: "distinct (map fst xs) \<Longrightarrow> map_of (rev xs) = map_of xs"
  by (rule map_of_inject_set [THEN iffD2]) (simp_all add: rev_map [symmetric])

lemma canonical_of_prefixed:
  assumes "header_token p" and "header_token k"
  shows "CanonicalHeaderKey (p @ k) =
     CanonicalHeaderKey p @
     canonicalMIMEHeaderKey_loop (if p = [] then True else last p = CHR ''-'') k"
  using assms
  by (simp add: CanonicalHeaderKey_def canonicalMIMEHeaderKey_def header_token_def
      canonical_append)

lemma prefixed_has_prefix:
  assumes "header_token p" and "header_token k"
  shows "HasPrefix (CanonicalHeaderKey (p @ k)) (CanonicalHeaderKey p)"
  by (simp add: canonical_of_prefixed [OF assms] HasPrefix_def)

lemma strip_prefixed:
  assumes "header_token p" and "header_token k"
  shows "ToLower L (drop (length (CanonicalHeaderKey p)) (CanonicalHeaderKey (p @ k))) =
     ToLower L k"
proof -
  let ?st = "if p = [] then True else last p = CHR ''-''"
  have "drop (length (CanonicalHeaderKey p)) (CanonicalHeaderKey (p @ k)) =
      canonicalMIMEHeaderKey_loop ?st k"
    by (simp add: canonical_of_prefixed [OF assms])
  moreover have "ToLower L (canonicalMIMEHeaderKey_loop ?st k) =
      map lowerByte (canonicalMIMEHeaderKey_loop ?st k)"
    by (rule ToLower_ASCII [OF isASCII_loop [OF token_isASCII [OF assms(2)]]])
  ultimately show ?thesis
    by (simp only: lower_of_canonical ToLower_token [OF assms(2)])
qed

lemma prefixed_lower_eq:
  assumes "ToLower L a = ToLower L b"
    and "header_token p" and "header_token a" and "header_token b"
  shows "CanonicalHeaderKey (p @ a) = CanonicalHeaderKey (p @ b)"
proof -
  let ?st = "if p = [] then True else last p = CHR ''-''"
  from assms have e: "map lowerByte a = map lowerByte b"
    by (simp add: ToLower_token)
  have "canonicalMIMEHeaderKey_loop ?st a = canonicalMIMEHeaderKey_loop ?st (map lowerByte a)"
    by (simp only: canonical_of_lower)
  also have "\<dots> = canonicalMIMEHeaderKey_loop ?st (map lowerByte b)"
    by (simp only: e)
  also have "\<dots> = canonicalMIMEHeaderKey_loop ?st b"
    by (simp only: canonical_of_lower)
  finally show ?thesis
    by (simp only: canonical_of_prefixed [OF assms(2) assms(3)]
        canonical_of_prefixed [OF assms(2) assms(4)])
qed

lemma Metadata_Headers_map_of:
  "map_of (Metadata_Headers m p) =
     map_of (rev (map (\<lambda>(k, v). (CanonicalHeaderKey (p @ k), v)) m))"
  using map_of_fold_update [of "\<lambda>k. CanonicalHeaderKey (p @ k)" m "[]"]
  by (simp add: Metadata_Headers_def)

lemma lower_keyed_map_of:
  "map_of (lower_keyed L m) = map_of (rev (map (\<lambda>(k, v). (ToLower L k, v)) m))"
  using map_of_fold_update [of "ToLower L" m "[]"]
  by (simp add: lower_keyed_def)

lemma round_trip:
  assumes vp: "header_token p" and vk: "\<forall>k \<in> fst ` set m. header_token k"
    and "distinct (map fst hs)" and "map_of hs = map_of (Metadata_Headers m p)"
  shows "map_of (Headers_Metadata L hs p) = map_of (lower_keyed L m)"
proof -
  let ?cp = "CanonicalHeaderKey p"
  let ?H = "\<lambda>k. CanonicalHeaderKey (p @ k)"
  let ?T = "\<lambda>key. ToLower L (drop (length ?cp) key)"
  let ?ys = "rev (map (\<lambda>(k, v). (?H k, v)) m)"
  have mh: "map_of hs = map_of ?ys"
    using assms(4) by (simp only: Metadata_Headers_map_of)
  then have "fst ` set hs = fst ` set ?ys"
    by (metis dom_map_of_conv_image_fst)
  then have keys: "fst ` set hs = ?H ` fst ` set m"
    by (force simp add: image_iff)
  have ykeys: "fst ` set ?ys = ?H ` fst ` set m"
    by (force simp add: image_iff)
  have pre: "\<forall>kv \<in> set hs. HasPrefix (fst kv) ?cp"
  proof
    fix kv assume "kv \<in> set hs"
    then have "fst kv \<in> ?H ` fst ` set m"
      using keys by blast
    then obtain k where k: "k \<in> fst ` set m" and e: "fst kv = ?H k"
      by blast
    from prefixed_has_prefix [OF vp vk [rule_format, OF k]] e show "HasPrefix (fst kv) ?cp"
      by simp
  qed
  then have flt: "filter (\<lambda>kv. HasPrefix (fst kv) ?cp) hs = hs"
    by (simp add: filter_id_conv)
  have "Headers_Metadata L hs p = fold (\<lambda>(key, val) m. AList.update (?T key) val m) hs []"
    unfolding Headers_Metadata_def Let_def fold_filter_update flt by (rule refl)
  then have 1: "map_of (Headers_Metadata L hs p) = map_of (map (\<lambda>(k, v). (?T k, v)) (rev hs))"
    using map_of_fold_update [of ?T hs "[]"] by (simp add: rev_map)
  have 2: "map_of (rev hs) = map_of ?ys"
    using mh map_of_rev_distinct [OF assms(3)] by simp
  have inj: "inj_on ?T (fst ` set (rev hs) \<union> fst ` set ?ys)"
  proof (rule inj_onI)
    fix x y
    assume x: "x \<in> fst ` set (rev hs) \<union> fst ` set ?ys"
      and y: "y \<in> fst ` set (rev hs) \<union> fst ` set ?ys" and e: "?T x = ?T y"
    from x keys ykeys have "x \<in> ?H ` fst ` set m"
      by simp
    then obtain a where am: "a \<in> fst ` set m" and a: "x = ?H a"
      by blast
    from y keys ykeys have "y \<in> ?H ` fst ` set m"
      by simp
    then obtain b where bm: "b \<in> fst ` set m" and b: "y = ?H b"
      by blast
    note va = vk [rule_format, OF am] and vb = vk [rule_format, OF bm]
    from e a b have "ToLower L a = ToLower L b"
      by (simp only: strip_prefixed [OF vp va] strip_prefixed [OF vp vb])
    from prefixed_lower_eq [OF this vp va vb] a b show "x = y"
      by simp
  qed
  have "map (\<lambda>kv. (?T (?H (fst kv)), snd kv)) m = map (\<lambda>kv. (ToLower L (fst kv), snd kv)) m"
  proof (rule map_cong [OF refl])
    fix kv assume "kv \<in> set m"
    then have "fst kv \<in> fst ` set m"
      by simp
    from strip_prefixed [OF vp vk [rule_format, OF this]]
    show "(?T (?H (fst kv)), snd kv) = (ToLower L (fst kv), snd kv)"
      by simp
  qed
  then have 3: "map (\<lambda>(k, v). (?T k, v)) ?ys = rev (map (\<lambda>(k, v). (ToLower L k, v)) m)"
    by (simp add: rev_map [symmetric] case_prod_beta comp_def)
  from map_of_map_key_cong [OF 2 inj] 1 3 show ?thesis
    by (simp only: lower_keyed_map_of)
qed

lemma lower_keyed_id:
  assumes "distinct (map fst m)" and "\<forall>k \<in> fst ` set m. ToLower L k = k"
  shows "map_of (lower_keyed L m) = map_of m"
proof -
  from assms(2) have "map (\<lambda>(k, v). (ToLower L k, v)) m = m"
    by (induction m) auto
  with map_of_rev_distinct [OF assms(1)] show ?thesis
    by (simp add: lower_keyed_map_of)
qed

lemma distinct_fold_update:
  "distinct (map fst acc) \<Longrightarrow>
   distinct (map fst (fold (\<lambda>(k, v) h. AList.update (f k) v h) m acc))"
  by (induction m arbitrary: acc) (auto simp add: distinct_update)

lemma Metadata_Headers_distinct: "distinct (map fst (Metadata_Headers m p))"
  using distinct_fold_update [of "[]" "\<lambda>k. CanonicalHeaderKey (p @ k)" m]
  by (simp add: Metadata_Headers_def)

text \<open>
  Claim C2. Let the prefix \<open>p\<close> and the keys of the metadata \<open>m\<close> be made of bytes
  that are valid in a header field name, and let \<open>hs\<close> be the headers that
  \<open>Metadata.Headers\<close> gives for \<open>m\<close> and \<open>p\<close>, visited in any order. Then
  \<open>Headers.Metadata\<close> with the same prefix returns \<open>m\<close> with its keys lower-cased
  (where two keys of \<open>m\<close> differ only in case, the one visited last by
  \<open>Metadata.Headers\<close> gives the value); and when the keys of \<open>m\<close> are lower-case
  it returns exactly \<open>m\<close>. Without the condition on the bytes the round trip can lose
  an entry: \<open>CanonicalHeaderKey\<close> leaves a key with a space as it is, so under a prefix
  in lower case the header does not start with the canonical prefix.
\<close>

theorem metadata_round_trip:
  assumes "header_token p" and "\<forall>k \<in> fst ` set m. header_token k"
    and "distinct (map fst hs)" and "map_of hs = map_of (Metadata_Headers m p)"
  shows "map_of (Headers_Metadata L hs p) = map_of (lower_keyed L m)
     \<and> (distinct (map fst m) \<and> (\<forall>k \<in> fst ` set m. ToLower L k = k) \<longrightarrow>
          map_of (Headers_Metadata L hs p) = map_of m)
     \<and> map_of (Headers_Metadata L (Metadata_Headers m p) p) = map_of (lower_keyed L m)"
proof -
  note 1 = round_trip [OF assms]
  have 2: "distinct (map fst m) \<and> (\<forall>k \<in> fst ` set m. ToLower L k = k) \<longrightarrow>
          map_of (Headers_Metadata L hs p) = map_of m"
    using 1 lower_keyed_id [of m L] by simp
  have 3: "map_of (Headers_Metadata L (Metadata_Headers m p) p) = map_of (lower_keyed L m)"
    by (rule round_trip [OF assms(1) assms(2) Metadata_Headers_distinct refl])
  show ?thesis
    by (rule conjI [OF 1 conjI [OF 2 3]])
qed

theorem metadata_round_trip_witness:
  "header_token ''X-Object-Meta-''
   \<and> list_all (\<lambda>kv. header_token (fst kv)) meta_lower
   \<and> list_all (\<lambda>kv. header_token (fst kv)) meta_mixed
   \<and> distinct (map fst meta_headers)
   \<and> Metadata_Headers meta_lower ''X-Object-Meta-'' = rev meta_headers
   \<and> map_of meta_headers = map_of (Metadata_Headers meta_lower ''X-Object-Meta-'')
   \<and> distinct (map fst meta_lower)
   \<and> list_all (\<lambda>kv. ToLower lib0 (fst kv) = fst kv) meta_lower
   \<and> map_of (Headers_Metadata lib0 meta_headers ''X-Object-Meta-'') = map_of meta_lower
   \<and> Headers_Metadata lib0 meta_headers ''X-Object-Meta-'' = rev meta_lower
   \<and> Metadata_Headers meta_mixed ''X-Object-Meta-'' = rev meta_headers
   \<and> map_of meta_headers = map_of (Metadata_Headers meta_mixed ''X-Object-Meta-'')
   \<and> map_of (Headers_Metadata lib0 meta_headers ''X-Object-Meta-'') =
       map_of (lower_keyed lib0 meta_mixed)
   \<and> lower_keyed lib0 meta_mixed = meta_lower
   \<and> header_token prefix_lower
   \<and> map_of (Headers_Metadata lib0 (Metadata_Headers meta_mixed prefix_lower) prefix_lower) =
       map_of (lower_keyed lib0 meta_mixed)"
proof -
  let ?p = "''X-Object-Meta-''"
  have vp: "header_token ?p"
    by code_simp
  have vq: "header_token prefix_lower"
    by code_simp
  have vl: "list_all (\<lambda>kv. header_token (fst kv)) meta_lower"
    by code_simp
  then have vl': "\<forall>k \<in> fst ` set meta_lower. header_token k"
    by (simp add: list_all_iff)
  have vm: "list_all (\<lambda>kv. header_token (fst kv)) meta_mixed"
    by code_simp
  then have vm': "\<forall>k \<in> fst ` set meta_mixed. header_token k"
    by (simp add: list_all_iff)
  have d: "distinct (map fst meta_headers)"
    by code_simp
  have e1: "Metadata_Headers meta_lower ?p = rev meta_headers"
    by code_simp
  have e2: "Metadata_Headers meta_mixed ?p = rev meta_headers"
    by code_simp
  have r: "map_of meta_headers = map_of (rev meta_headers)"
    by (rule map_of_rev_distinct [OF d, symmetric])
  have h1: "map_of meta_headers = map_of (Metadata_Headers meta_lower ?p)"
    using r by (simp only: e1)
  have h2: "map_of meta_headers = map_of (Metadata_Headers meta_mixed ?p)"
    using r by (simp only: e2)
  have dm: "distinct (map fst meta_lower)"
    by code_simp
  have lw: "list_all (\<lambda>kv. ToLower lib0 (fst kv) = fst kv) meta_lower"
    by code_simp
  then have lw': "\<forall>k \<in> fst ` set meta_lower. ToLower lib0 k = k"
    by (simp add: list_all_iff)
  note t1 = metadata_round_trip [where L = lib0, OF vp vl' d h1]
  note t2 = metadata_round_trip [where L = lib0, OF vp vm' d h2]
  note t3 = metadata_round_trip [where L = lib0, OF vq vm' Metadata_Headers_distinct refl]
  note c1 = t1 [THEN conjunct2, THEN conjunct1, THEN mp, OF conjI [OF dm lw']]
  note c2 = t2 [THEN conjunct1]
  note c3 = t3 [THEN conjunct2, THEN conjunct2]
  have v1: "Headers_Metadata lib0 meta_headers ?p = rev meta_lower"
    by code_simp
  have v2: "lower_keyed lib0 meta_mixed = meta_lower"
    by code_simp
  show ?thesis
    by (intro conjI vp vl vm d e1 h1 dm lw c1 v1 e2 h2 c2 v2 vq c3)
qed

text \<open>
  The law without the condition: the metadata \<open>{"a b": "v"}\<close>, whose key is lower-case,
  under the prefix \<open>x-object-meta-\<close>. \<open>Metadata.Headers\<close> gives the header
  \<open>x-object-meta-a b\<close>, which \<open>CanonicalHeaderKey\<close> leaves unchanged because of the
  space; \<open>Headers.Metadata\<close> looks for the prefix \<open>X-Object-Meta-\<close> and returns
  the empty map.
\<close>

theorem metadata_round_trip_counterexample:
  "Metadata_Headers meta_spaced prefix_lower = [(''x-object-meta-a b'', ''v'')]
   \<and> CanonicalHeaderKey prefix_lower = ''X-Object-Meta-''
   \<and> Headers_Metadata lib0 (Metadata_Headers meta_spaced prefix_lower) prefix_lower = []
   \<and> distinct (map fst meta_spaced)
   \<and> list_all (\<lambda>kv. ToLower lib0 (fst kv) = fst kv) meta_spaced
   \<and> lower_keyed lib0 meta_spaced = meta_spaced
   \<and> meta_spaced \<noteq> []"
  by code_simp

section \<open>The two fields of the session\<close>

lemma parseHeaders_None_2xx:
  "parseHeaders r em = None \<Longrightarrow> 200 \<le> StatusCode r \<and> StatusCode r \<le> 299"
  by (auto simp add: parseHeaders_def split: option.splits if_splits)

lemma Authenticate_session:
  assumes "Authenticate L c w = (err, c1, w1)"
  shows "set (script w1) \<subseteq> set (script w) \<and>
         ((storageUrl c1 = storageUrl c \<and> authToken c1 = authToken c) \<or>
          (\<exists>n r. (n, Inr r) \<in> set (script w) \<and> 200 \<le> StatusCode r \<and> StatusCode r \<le> 299 \<and>
                 storageUrl c1 = Header_Get (Header r) ''X-Storage-Url'' \<and>
                 authToken c1 = Header_Get (Header r) ''X-Auth-Token''))"
proof (cases "newRequestErr L ''GET'' (AuthUrl c)")
  case (Some e)
  with assms show ?thesis
    unfolding Authenticate_unfold by (auto split: if_splits)
next
  case None
  show ?thesis
  proof (cases "script w")
    case Nil
    with None assms show ?thesis
      unfolding Authenticate_unfold by (auto split: if_splits)
  next
    case (Cons a rest)
    obtain n x where a: "a = (n, x)"
      by (cases a)
    show ?thesis
    proof (cases x)
      case (Inl e)
      with None Cons a assms show ?thesis
        unfolding Authenticate_unfold by (auto split: if_splits)
    next
      case (Inr r)
      let ?r = "r\<lparr>Body := (Body r)\<lparr>bid := served w\<rparr>\<rparr>"
      show ?thesis
      proof (cases "parseHeaders ?r (Some authErrorMap)")
        case (Some e)
        with None Cons a Inr assms show ?thesis
          unfolding Authenticate_unfold by (auto split: if_splits)
      next
        case ph: None
        from parseHeaders_None_2xx [OF ph] have sc: "200 \<le> StatusCode r" "StatusCode r \<le> 299"
          by simp_all
        have mem: "(n, Inr r) \<in> set (script w)"
          using Cons a Inr by simp
        from None Cons a Inr ph assms
        have "set (script w1) \<subseteq> set (script w) \<and>
              storageUrl c1 = Header_Get (Header r) ''X-Storage-Url'' \<and>
              authToken c1 = Header_Get (Header r) ''X-Auth-Token''"
          unfolding Authenticate_unfold by (auto split: if_splits)
        with sc mem show ?thesis
          by blast
      qed
    qed
  qed
qed

lemma Authenticate_sound:
  assumes "sound (c, w)" and "Authenticate L c w = (err, c1, w1)"
  shows "sound (c1, w1)"
proof -
  note s = Authenticate_session [OF assms(2)]
  from s assms(1) have nh: "\<forall>x \<in> set (script w1). \<not> half_answer x"
    by (auto simp add: sound_def)
  from s have "(storageUrl c1 = storageUrl c \<and> authToken c1 = authToken c) \<or>
          (\<exists>n r. (n, Inr r) \<in> set (script w) \<and> 200 \<le> StatusCode r \<and> StatusCode r \<le> 299 \<and>
                 storageUrl c1 = Header_Get (Header r) ''X-Storage-Url'' \<and>
                 authToken c1 = Header_Get (Header r) ''X-Auth-Token'')"
    by blast
  then have "paired c1"
  proof
    assume "storageUrl c1 = storageUrl c \<and> authToken c1 = authToken c"
    with assms(1) show ?thesis
      by (simp add: sound_def paired_def)
  next
    assume "\<exists>n r. (n, Inr r) \<in> set (script w) \<and> 200 \<le> StatusCode r \<and> StatusCode r \<le> 299 \<and>
                 storageUrl c1 = Header_Get (Header r) ''X-Storage-Url'' \<and>
                 authToken c1 = Header_Get (Header r) ''X-Auth-Token''"
    then obtain n r where m: "(n, Inr r) \<in> set (script w)"
      and sc: "200 \<le> StatusCode r" "StatusCode r \<le> 299"
      and u: "storageUrl c1 = Header_Get (Header r) ''X-Storage-Url''"
      and t: "authToken c1 = Header_Get (Header r) ''X-Auth-Token''"
      by blast
    from assms(1) m have "\<not> half_answer (n, Inr r)"
      by (auto simp add: sound_def)
    with sc u t show ?thesis
      by (simp add: half_answer_def paired_def)
  qed
  with nh show ?thesis
    by (simp add: sound_def)
qed

lemma sound_UnAuthenticate: "sound (c, w) \<Longrightarrow> sound (UnAuthenticate c, w)"
  by (simp add: sound_def paired_def UnAuthenticate_def)

lemma sound_world:
  "sound (c, w) \<Longrightarrow> set (script w') \<subseteq> set (script w) \<Longrightarrow> sound (c, w')"
  by (auto simp add: sound_def)

lemma storage_attempt_sound:
  assumes "sound (c, w)"
  shows "storage_attempt L p rs c w rd = Inl (rs', e, c1, w1, rd1) \<Longrightarrow> sound (c1, w1)"
    and "storage_attempt L p rs c w rd = Inr (resp, c1, w1, rd1) \<Longrightarrow> sound (c1, w1)"
proof -
  obtain e0 c0 w0 where
    a: "(if \<not> Authenticated c then Authenticate L c w else (None, c, w)) = (e0, c0, w0)"
    by (metis prod_cases3)
  have s0: "sound (c0, w0)"
  proof (cases "Authenticated c")
    case True
    with a assms show ?thesis by simp
  next
    case False
    with a have "Authenticate L c w = (e0, c0, w0)" by simp
    from Authenticate_sound [OF assms this] show ?thesis .
  qed
  have d: "\<And>req a rd2 w2. client_Do w0 req = (a, rd2, w2) \<Longrightarrow> sound (c0, w2)"
  proof -
    fix req a rd2 w2 assume "client_Do w0 req = (a, rd2, w2)"
    from client_Do_world [OF this] have "script w2 = tl (script w0)"
      by simp
    then have "set (script w2) \<subseteq> set (script w0)"
      by (cases "script w0") auto
    from sound_world [OF s0 this] show "sound (c0, w2)" .
  qed
  show "storage_attempt L p rs c w rd = Inl (rs', e, c1, w1, rd1) \<Longrightarrow> sound (c1, w1)"
    using a s0 d unfolding storage_attempt_def
    by (auto split: option.splits sum.splits prod.splits)
  show "storage_attempt L p rs c w rd = Inr (resp, c1, w1, rd1) \<Longrightarrow> sound (c1, w1)"
    using a s0 d unfolding storage_attempt_def
    by (auto split: option.splits sum.splits prod.splits)
qed

lemma storage_loop_sound:
  "sound (c, w) \<Longrightarrow>
   (storage_loop L p n rs c w rd = Inl (rs', e, c1, w1, rd1) \<longrightarrow> sound (c1, w1)) \<and>
   (storage_loop L p n rs c w rd = Inr (resp, c1, w1, rd1) \<longrightarrow> sound (c1, w1))"
proof (induction L p n rs c w rd rule: storage_loop.induct)
  case (1 L p n rs c w rd)
  show ?case
  proof (cases "storage_attempt L p rs c w rd")
    case (Inl out)
    obtain rs0 e0 c0 w0 rd0 where out: "out = (rs0, e0, c0, w0, rd0)"
      by (metis prod_cases5)
    from storage_attempt_sound(1) [OF "1.prems" Inl [unfolded out]] have "sound (c0, w0)" .
    with Inl out show ?thesis
      by (subst (1 2) storage_loop.simps) auto
  next
    case (Inr x)
    obtain resp' c' w' rd' where x: "x = (resp', c', w', rd')"
      by (cases x) auto
    from storage_attempt_sound(2) [OF "1.prems" Inr [unfolded x]] have s': "sound (c', w')" .
    show ?thesis
    proof (cases "StatusCode resp' = 401 \<and> n > 0")
      case True
      have "sound (UnAuthenticate c', snd (body_Close (Body resp') w'))"
        using sound_UnAuthenticate [OF s'] by (rule sound_world) simp
      from "1.IH" [OF Inr, of resp' "(c', w', rd')" c' "(w', rd')" w' rd'] x True this
      have "(storage_loop L p (n - 1) (Some resp') (UnAuthenticate c')
               (snd (body_Close (Body resp') w')) rd' = Inl (rs', e, c1, w1, rd1) \<longrightarrow> sound (c1, w1)) \<and>
            (storage_loop L p (n - 1) (Some resp') (UnAuthenticate c')
               (snd (body_Close (Body resp') w')) rd' = Inr (resp, c1, w1, rd1) \<longrightarrow> sound (c1, w1))"
        by simp
      with True show ?thesis
        unfolding storage_loop_unfold [OF Inr [unfolded x], of n] by simp
    next
      case False
      with s' show ?thesis
        unfolding storage_loop_unfold [OF Inr [unfolded x], of n] by auto
    qed
  qed
qed

lemma storage_sound:
  assumes "sound (c, w)" and "storage L p c w = (res, c1, w1, rd1)"
  shows "sound (c1, w1)"
proof -
  let ?n = "if retries p = 0 then Retries c else retries p"
  show ?thesis
  proof (cases "storage_loop L p ?n None c w (body p)")
    case (Inl out)
    obtain rs0 e0 c0 w0 rd0 where out: "out = (rs0, e0, c0, w0, rd0)"
      by (metis prod_cases5)
    from storage_loop_sound [OF assms(1), where L = L and p = p and n = ?n and rs = None
           and rd = "body p" and rs' = rs0 and e = e0 and ?c1.0 = c0 and ?w1.0 = w0 and ?rd1.0 = rd0]
      Inl out
    have "sound (c0, w0)"
      by simp
    with assms(2) Inl out show ?thesis
      by (simp add: storage_def Let_def)
  next
    case (Inr x)
    obtain resp c0 w0 rd0 where x: "x = (resp, c0, w0, rd0)"
      by (cases x) auto
    from storage_loop_sound [OF assms(1), where L = L and p = p and n = ?n and rs = None
           and rd = "body p" and resp = resp and ?c1.0 = c0 and ?w1.0 = w0 and ?rd1.0 = rd0]
      Inr x
    have s0: "sound (c0, w0)"
      by simp
    have s1: "sound (c0, snd (body_Close (Body resp) w0))"
      using s0 by (rule sound_world) simp
    from assms(2) Inr x have "c1 = c0 \<and> (w1 = w0 \<or> w1 = snd (body_Close (Body resp) w0))"
      by (auto simp add: storage_def Let_def body_Close_def split: option.splits if_splits)
    with s0 s1 show ?thesis
      by auto
  qed
qed

lemma apply_op_sound: "sound s \<Longrightarrow> sound (apply_op L x s)"
proof (cases s)
  case (Pair c w)
  assume s: "sound s"
  show ?thesis
  proof (cases x)
    case OpAuthenticate
    obtain err c1 w1 where a: "Authenticate L c w = (err, c1, w1)"
      by (metis prod_cases3)
    from Authenticate_sound [OF s [unfolded Pair] a] a Pair OpAuthenticate show ?thesis
      by simp
  next
    case OpUnAuthenticate
    with Pair s sound_UnAuthenticate show ?thesis
      by simp
  next
    case (OpStorage p)
    obtain res c1 w1 rd1 where a: "storage L p c w = (res, c1, w1, rd1)"
      by (metis prod_cases4)
    from storage_sound [OF s [unfolded Pair] a] a Pair OpStorage show ?thesis
      by simp
  qed
qed

lemma run_sound: "sound s \<Longrightarrow> \<forall>t \<in> set (run L xs s). sound t"
proof (induction xs arbitrary: s)
  case Nil
  then show ?case
    by simp
next
  case (Cons x xs)
  from Cons.IH [OF apply_op_sound [OF Cons.prems, of L x]] Cons.prems show ?case
    by simp
qed

text \<open>
  Claim C3, as the source has it. \<open>Authenticated\<close> is true exactly when both fields are
  non-empty; \<open>UnAuthenticate\<close> clears both; an \<open>Authenticate\<close> that returns no error
  has set both. At every point of every sequence of \<open>Authenticate\<close>, \<open>UnAuthenticate\<close>
  and \<open>storage\<close> operations the two fields are both empty or both non-empty, as long as
  the transport never answers with a status in 200..299 that carries exactly one of the
  two headers non-empty.
\<close>

theorem session_fields_paired:
  assumes "paired c" and "\<forall>x \<in> set (script w). \<not> half_answer x"
  shows "(\<forall>s \<in> set (run L ops (c, w)). paired (fst s))
     \<and> (Authenticated c' \<longleftrightarrow> storageUrl c' \<noteq> '''' \<and> authToken c' \<noteq> '''')
     \<and> storageUrl (UnAuthenticate c') = '''' \<and> authToken (UnAuthenticate c') = ''''
     \<and> (fst (Authenticate L' c' w') = None \<longrightarrow>
          Authenticated (fst (snd (Authenticate L' c' w'))))"
proof -
  from assms have "sound (c, w)"
    by (simp add: sound_def)
  from run_sound [OF this, of L ops]
  have 1: "\<forall>s \<in> set (run L ops (c, w)). paired (fst s)"
    by (simp add: sound_def)
  have 2: "Authenticated c' \<longleftrightarrow> storageUrl c' \<noteq> '''' \<and> authToken c' \<noteq> ''''"
    by (simp add: Authenticated_def)
  have 3: "storageUrl (UnAuthenticate c') = ''''" and 4: "authToken (UnAuthenticate c') = ''''"
    by (simp_all add: UnAuthenticate_def)
  have 5: "fst (Authenticate L' c' w') = None \<longrightarrow>
          Authenticated (fst (snd (Authenticate L' c' w')))"
  proof
    assume n: "fst (Authenticate L' c' w') = None"
    obtain err c1 w1 where a: "Authenticate L' c' w' = (err, c1, w1)"
      by (metis prod_cases3)
    with n have "Authenticate L' c' w' = (None, c1, w1)"
      by simp
    from Authenticate_None [OF this] a show "Authenticated (fst (snd (Authenticate L' c' w')))"
      by simp
  qed
  show ?thesis
    by (rule conjI [OF 1 conjI [OF 2 conjI [OF 3 conjI [OF 4 5]]]])
qed

theorem session_fields_paired_witness:
  "paired (UnAuthenticate conn0)
   \<and> list_all (\<lambda>x. \<not> half_answer x) (script (world0 [grant, deny, grant, accept]))
   \<and> list_all (\<lambda>s. paired (fst s))
        (run lib0 [OpStorage Account_opts, OpUnAuthenticate, OpAuthenticate]
           (UnAuthenticate conn0, world0 [grant, deny, grant, accept]))
   \<and> map (\<lambda>s. (storageUrl (fst s), authToken (fst s)))
        (run lib0 [OpStorage Account_opts, OpUnAuthenticate, OpAuthenticate]
           (UnAuthenticate conn0, world0 [grant, deny, grant, accept]))
       = [('''', ''''), (''https://store/v1/a'', ''tok''), ('''', ''''), ('''', '''')]
   \<and> fst (Authenticate lib0 (UnAuthenticate conn0) (world0 [grant])) = None
   \<and> Authenticated (fst (snd (Authenticate lib0 (UnAuthenticate conn0) (world0 [grant]))))"
proof -
  let ?c = "UnAuthenticate conn0"
  let ?w = "world0 [grant, deny, grant, accept]"
  let ?ops = "[OpStorage Account_opts, OpUnAuthenticate, OpAuthenticate]"
  have p: "paired ?c"
    by code_simp
  have h: "list_all (\<lambda>x. \<not> half_answer x) (script ?w)"
    by code_simp
  then have h': "\<forall>x \<in> set (script ?w). \<not> half_answer x"
    by (simp only: list_all_iff)
  note t = session_fields_paired [OF p h', of lib0 ?ops ?c lib0 "world0 [grant]"]
  from t [THEN conjunct1]
  have c1: "list_all (\<lambda>s. paired (fst s)) (run lib0 ?ops (?c, ?w))"
    by (simp only: list_all_iff)
  have v: "map (\<lambda>s. (storageUrl (fst s), authToken (fst s))) (run lib0 ?ops (?c, ?w))
             = [('''', ''''), (''https://store/v1/a'', ''tok''), ('''', ''''), ('''', '''')]"
    by code_simp
  have a: "fst (Authenticate lib0 ?c (world0 [grant])) = None"
    by code_simp
  note c2 = t [THEN conjunct2, THEN conjunct2, THEN conjunct2, THEN conjunct2, THEN mp, OF a]
  show ?thesis
    by (intro conjI p h c1 v a c2)
qed

text \<open>
  A handshake answered 200 with the storage URL and no token leaves the URL set and the
  token empty: \<open>Authenticate\<close> assigns both fields from the response before it checks
  them, and returns its error without clearing them.
\<close>

theorem session_fields_counterexample:
  "paired (UnAuthenticate conn0)
   \<and> fst (Authenticate lib0 (UnAuthenticate conn0) (world0 [half]))
       = Some (Error 0 ''Response didn't have storage url and auth token'')
   \<and> storageUrl (fst (snd (Authenticate lib0 (UnAuthenticate conn0) (world0 [half]))))
       = ''https://store/v1/a''
   \<and> authToken (fst (snd (Authenticate lib0 (UnAuthenticate conn0) (world0 [half])))) = ''''
   \<and> \<not> paired (fst (snd (Authenticate lib0 (UnAuthenticate conn0) (world0 [half]))))
   \<and> \<not> list_all (\<lambda>s. paired (fst s))
          (run lib0 [OpAuthenticate] (UnAuthenticate conn0, world0 [half]))"
  by code_simp

section \<open>Classification by resource class\<close>

lemma ContainerDelete_409:
  assumes "storage_loop L (ContainerDelete_opts cont) (Retries c) None c w None
             = Inr (resp, c1, w1, rd1)"
    and "StatusCode resp = 409"
  shows "ContainerDelete L cont c w =
           (Some ContainerNotEmpty, c1, snd (body_Close (Body resp) w1))"
proof -
  have "parseHeaders resp (errorMap (ContainerDelete_opts cont)) = Some ContainerNotEmpty"
    using assms(2)
    by (simp add: parseHeaders_def ContainerDelete_opts_def opts0_def containerErrorMap_def)
  moreover have "retries (ContainerDelete_opts cont) = 0" "body (ContainerDelete_opts cont) = None"
    by (simp_all add: ContainerDelete_opts_def opts0_def)
  ultimately show ?thesis
    using assms(1)
      storage_of_loop_error [of L "ContainerDelete_opts cont" c w resp c1 w1 rd1 ContainerNotEmpty]
    by (simp add: ContainerDelete_def)
qed

lemma ObjectDelete_409:
  assumes "storage_loop L (ObjectDelete_opts cont name) (Retries c) None c w None
             = Inr (resp, c1, w1, rd1)"
    and "StatusCode resp = 409"
  shows "ObjectDelete L cont name c w =
           (Some (Error 409 (''HTTP Error: 409: '' @ Status resp)), c1,
            snd (body_Close (Body resp) w1))"
proof -
  have "parseHeaders resp (errorMap (ObjectDelete_opts cont name))
          = Some (Error 409 (''HTTP Error: 409: '' @ Status resp))"
    using assms(2)
    by (simp add: parseHeaders_def ObjectDelete_opts_def opts0_def objectErrorMap_def
          newError_def Itoa_409)
  moreover have "retries (ObjectDelete_opts cont name) = 0"
    "body (ObjectDelete_opts cont name) = None"
    by (simp_all add: ObjectDelete_opts_def opts0_def)
  ultimately show ?thesis
    using assms(1) storage_of_loop_error [of L "ObjectDelete_opts cont name" c w resp c1 w1 rd1]
    by (simp add: ObjectDelete_def)
qed

text \<open>
  Claim C4. For every status code and every error map of a resource class,
  \<open>parseHeaders\<close> returns the mapped error when the status is a key of the map; otherwise
  nil when the status lies in 200..299; otherwise the generic HTTP error, which carries the
  status and the status text. In particular, when the dispatcher ends on a response of
  status 409, \<open>ContainerDelete\<close> returns \<open>ContainerNotEmpty\<close> and an object operation
  (\<open>ObjectDelete\<close>) returns the generic HTTP error for 409.
\<close>

theorem parseHeaders_classifies:
  "(em = Some m \<and> m (StatusCode resp) = Some e \<longrightarrow> parseHeaders resp em = Some e)
   \<and> ((case em of None \<Rightarrow> None | Some m \<Rightarrow> m (StatusCode resp)) = None \<longrightarrow>
        parseHeaders resp em =
          (if 200 \<le> StatusCode resp \<and> StatusCode resp \<le> 299 then None
           else Some (Error (StatusCode resp)
                       (''HTTP Error: '' @ Itoa (StatusCode resp) @ '': '' @ Status resp))))
   \<and> (storage_loop L (ContainerDelete_opts cont) (Retries c) None c w None
         = Inr (resp, c1, w1, rd1)
       \<and> StatusCode resp = 409 \<longrightarrow>
       fst (ContainerDelete L cont c w) = Some ContainerNotEmpty)
   \<and> (storage_loop L' (ObjectDelete_opts cont' name) (Retries c') None c' w' None
         = Inr (resp, c1', w1', rd1')
       \<and> StatusCode resp = 409 \<longrightarrow>
       fst (ObjectDelete L' cont' name c' w')
         = Some (Error 409 (''HTTP Error: 409: '' @ Status resp)))"
proof (intro conjI impI)
  show "parseHeaders resp em = Some e" if "em = Some m \<and> m (StatusCode resp) = Some e"
    using that parseHeaders_mapped by blast
  show "parseHeaders resp em =
          (if 200 \<le> StatusCode resp \<and> StatusCode resp \<le> 299 then None
           else Some (Error (StatusCode resp)
                       (''HTTP Error: '' @ Itoa (StatusCode resp) @ '': '' @ Status resp)))"
    if "(case em of None \<Rightarrow> None | Some m \<Rightarrow> m (StatusCode resp)) = None"
    using that by (rule parseHeaders_unmapped)
  show "fst (ContainerDelete L cont c w) = Some ContainerNotEmpty"
    if "storage_loop L (ContainerDelete_opts cont) (Retries c) None c w None
          = Inr (resp, c1, w1, rd1) \<and> StatusCode resp = 409"
    using that ContainerDelete_409 [of L cont c w resp c1 w1 rd1] by simp
  show "fst (ObjectDelete L' cont' name c' w')
          = Some (Error 409 (''HTTP Error: 409: '' @ Status resp))"
    if "storage_loop L' (ObjectDelete_opts cont' name) (Retries c') None c' w' None
          = Inr (resp, c1', w1', rd1') \<and> StatusCode resp = 409"
    using that ObjectDelete_409 [of L' cont' name c' w' resp c1' w1' rd1'] by simp
qed

theorem parseHeaders_classifies_witness:
  "containerErrorMap (StatusCode (resp0 409 ''409 Conflict'' [])) = Some ContainerNotEmpty
   \<and> parseHeaders (resp0 409 ''409 Conflict'' []) (Some containerErrorMap) = Some ContainerNotEmpty
   \<and> objectErrorMap (StatusCode (resp0 204 ''204 No Content'' [])) = None
   \<and> parseHeaders (resp0 204 ''204 No Content'' []) (Some objectErrorMap) = None
   \<and> storage_loop lib0 (ContainerDelete_opts ''c'') (Retries conn0) None conn0
         (world0 [(0, Inr (resp0 409 ''409 Conflict'' []))]) None
       = Inr (resp0 409 ''409 Conflict'' [], conn0, sent0 ''DELETE'' ''https://store/v1/a/c'' [], None)
   \<and> fst (ContainerDelete lib0 ''c'' conn0 (world0 [(0, Inr (resp0 409 ''409 Conflict'' []))]))
       = Some ContainerNotEmpty
   \<and> storage_loop lib0 (ObjectDelete_opts ''c'' ''o'') (Retries conn0) None conn0
         (world0 [(0, Inr (resp0 409 ''409 Conflict'' []))]) None
       = Inr (resp0 409 ''409 Conflict'' [], conn0, sent0 ''DELETE'' ''https://store/v1/a/c/o'' [], None)
   \<and> fst (ObjectDelete lib0 ''c'' ''o'' conn0 (world0 [(0, Inr (resp0 409 ''409 Conflict'' []))]))
       = Some (Error 409 (''HTTP Error: 409: '' @ Status (resp0 409 ''409 Conflict'' [])))"
proof -
  let ?r = "resp0 409 ''409 Conflict'' []"
  let ?r' = "resp0 204 ''204 No Content'' []"
  let ?w = "world0 [(0, Inr ?r)]"
  have sc: "StatusCode ?r = 409"
    by (simp add: resp0_def)
  have k1: "containerErrorMap (StatusCode ?r) = Some ContainerNotEmpty"
    by (simp add: containerErrorMap_def resp0_def)
  have k2: "objectErrorMap (StatusCode ?r') = None"
    by (simp add: objectErrorMap_def resp0_def)
  have k3: "(case Some objectErrorMap of None \<Rightarrow> None | Some m \<Rightarrow> m (StatusCode ?r')) = None"
    using k2 by simp
  have l1: "storage_loop lib0 (ContainerDelete_opts ''c'') (Retries conn0) None conn0 ?w None
              = Inr (?r, conn0, sent0 ''DELETE'' ''https://store/v1/a/c'' [], None)"
    by code_simp
  have l2: "storage_loop lib0 (ObjectDelete_opts ''c'' ''o'') (Retries conn0) None conn0 ?w None
              = Inr (?r, conn0, sent0 ''DELETE'' ''https://store/v1/a/c/o'' [], None)"
    by code_simp
  have c1: "parseHeaders ?r (Some containerErrorMap) = Some ContainerNotEmpty"
    by (rule parseHeaders_classifies [THEN conjunct1, THEN mp]) (rule conjI [OF refl k1])
  have "parseHeaders ?r' (Some objectErrorMap) =
          (if 200 \<le> StatusCode ?r' \<and> StatusCode ?r' \<le> 299 then None
           else Some (Error (StatusCode ?r')
                       (''HTTP Error: '' @ Itoa (StatusCode ?r') @ '': '' @ Status ?r')))"
    by (rule parseHeaders_classifies [THEN conjunct2, THEN conjunct1, THEN mp]) (rule k3)
  then have c2: "parseHeaders ?r' (Some objectErrorMap) = None"
    by (simp add: resp0_def)
  have c3: "fst (ContainerDelete lib0 ''c'' conn0 ?w) = Some ContainerNotEmpty"
    by (rule parseHeaders_classifies
          [THEN conjunct2, THEN conjunct2, THEN conjunct1, THEN mp])
       (rule conjI [OF l1 sc])
  have c4: "fst (ObjectDelete lib0 ''c'' ''o'' conn0 ?w)
              = Some (Error 409 (''HTTP Error: 409: '' @ Status ?r))"
    by (rule parseHeaders_classifies
          [THEN conjunct2, THEN conjunct2, THEN conjunct2, THEN mp])
       (rule conjI [OF l2 sc])
  show ?thesis
    by (intro conjI k1 c1 k2 c2 l1 c3 l2 c4)
qed

section \<open>A handshake that does not give both values\<close>

text \<open>
  Claim C5, as the source has it. For every handshake response with a status in 200..299
  in which the storage-URL header or the token header is absent or empty, \<open>Authenticate\<close>
  fails; the error it returns has status code 0 and the text
  "Response didn't have storage url and auth token".
\<close>

theorem Authenticate_incomplete_response:
  assumes "script w = (n, Inr resp) # rest"
    and "newRequestErr L ''GET'' (AuthUrl c) = None"
    and "200 \<le> StatusCode resp" and "StatusCode resp \<le> 299"
    and "Header_Get (Header resp) ''X-Storage-Url'' = '''' \<or>
         Header_Get (Header resp) ''X-Auth-Token'' = ''''"
  shows "fst (Authenticate L c w) =
           Some (Error 0 ''Response didn't have storage url and auth token'')"
proof -
  let ?c1 = "if UserAgent c = '''' then c\<lparr>UserAgent := DefaultUserAgent\<rparr> else c"
  let ?c = "if Retries ?c1 = 0 then ?c1\<lparr>Retries := DefaultRetries\<rparr> else ?c1"
  have url: "AuthUrl ?c = AuthUrl c"
    by simp
  have scr: "script (CloseIdleConnections w) = (n, Inr resp) # rest"
    using assms(1) by (simp add: CloseIdleConnections_def emit_def)
  show ?thesis
    using assms(2-5)
      parseHeaders_auth_2xx
        [of "resp\<lparr>Body := (Body resp)\<lparr>bid := served (CloseIdleConnections w)\<rparr>\<rparr>"]
    unfolding Authenticate_def Let_def
    by (auto simp add: url NewRequest_def client_Do_answer [OF scr] Authenticated_def
          Authenticate_deferred_def checkClose_def body_Close_def newError_def
          split: prod.splits)
qed

theorem Authenticate_incomplete_response_witness:
  "script (world0 [(0, Inr (resp0 200 ''200 OK'' [(''X-Storage-Url'', ''https://store/v1/a'', [])]))])
     = (0, Inr (resp0 200 ''200 OK'' [(''X-Storage-Url'', ''https://store/v1/a'', [])])) # []
   \<and> newRequestErr lib0 ''GET'' (AuthUrl (UnAuthenticate conn0)) = None
   \<and> 200 \<le> StatusCode (resp0 200 ''200 OK'' [(''X-Storage-Url'', ''https://store/v1/a'', [])])
   \<and> StatusCode (resp0 200 ''200 OK'' [(''X-Storage-Url'', ''https://store/v1/a'', [])]) \<le> 299
   \<and> Header_Get (Header (resp0 200 ''200 OK'' [(''X-Storage-Url'', ''https://store/v1/a'', [])]))
         ''X-Auth-Token'' = ''''
   \<and> fst (Authenticate lib0 (UnAuthenticate conn0)
            (world0 [(0, Inr (resp0 200 ''200 OK'' [(''X-Storage-Url'', ''https://store/v1/a'', [])]))]))
       = Some (Error 0 ''Response didn't have storage url and auth token'')"
proof -
  let ?r = "resp0 200 ''200 OK'' [(''X-Storage-Url'', ''https://store/v1/a'', [])]"
  have h1: "script (world0 [(0, Inr ?r)]) = (0, Inr ?r) # []"
    by (simp add: world0_def)
  have h2: "newRequestErr lib0 ''GET'' (AuthUrl (UnAuthenticate conn0)) = None"
    by (simp add: lib0_def)
  have h3: "200 \<le> StatusCode ?r" and h4: "StatusCode ?r \<le> 299"
    by (simp_all add: resp0_def)
  have h5: "Header_Get (Header ?r) ''X-Auth-Token'' = ''''"
    by code_simp
  have c: "fst (Authenticate lib0 (UnAuthenticate conn0) (world0 [(0, Inr ?r)]))
             = Some (Error 0 ''Response didn't have storage url and auth token'')"
    by (rule Authenticate_incomplete_response [OF h1 h2 h3 h4 disjI2 [OF h5]])
  show ?thesis
    by (intro conjI h1 h2 h3 h4 h5 c)
qed

text \<open>
  The error of such a handshake does not carry the status of the server: on a response
  200 with no header at all it carries 0.
\<close>

theorem Authenticate_status_counterexample:
  "StatusCode (resp0 200 ''200 OK'' []) = 200
   \<and> map_option errStatusCode
        (fst (Authenticate lib0 (UnAuthenticate conn0) (world0 [(0, Inr (resp0 200 ''200 OK'' []))])))
       = Some (Some 0)
   \<and> map_option errStatusCode
        (fst (Authenticate lib0 (UnAuthenticate conn0) (world0 [(0, Inr (resp0 200 ''200 OK'' []))])))
       \<noteq> Some (Some (StatusCode (resp0 200 ''200 OK'' [])))"
  by code_simp

section \<open>Caller headers and default headers\<close>

lemma caller_header_first:
  assumes "(k, v) \<in> set (headers p)"
    and "\<forall>kv \<in> set (headers p).
           CanonicalHeaderKey (fst kv) = CanonicalHeaderKey k \<longrightarrow> kv = (k, v)"
  shows "Header_Get (storage_headers c p []) k = v"
proof -
  from filter_only [OF assms] obtain m where
    "map snd (filter (\<lambda>kv. CanonicalHeaderKey (fst kv) = CanonicalHeaderKey k) (headers p))
       = v # m"
    by (elim exE)
  then show ?thesis
    unfolding Header_Get_values storage_headers_values by simp
qed

lemma token_attached:
  "authToken c \<in> set (Header_values (storage_headers c p []) ''X-Auth-Token'')"
  unfolding storage_headers_values by simp

text \<open>
  Claim C6. In the request that the dispatcher builds, the values of a header are the
  caller's values for it followed by the default (the user agent \<open>goswift/1.0\<close>) and
  the token. So for every key of the caller's headers (no other key of the caller having
  the same canonical form), also one that collides with a default such as
  \<open>User-Agent\<close>, the value the request carries for the key (\<open>Header.Get\<close>, the first
  value) is the caller's; the token of the session is among the values of
  \<open>X-Auth-Token\<close>; and the request whose response ends the loop of \<open>storage\<close> has
  these headers.
\<close>

theorem caller_headers_win:
  "Header_values (storage_headers c p []) (CanonicalHeaderKey k) =
     map snd (filter (\<lambda>kv. CanonicalHeaderKey (fst kv) = CanonicalHeaderKey k) (headers p)) @
     (if CanonicalHeaderKey k = ''User-Agent'' then [DefaultUserAgent] else []) @
     (if CanonicalHeaderKey k = ''X-Auth-Token'' then [authToken c] else [])
   \<and> ((k, v) \<in> set (headers p) \<and>
       (\<forall>kv \<in> set (headers p).
          CanonicalHeaderKey (fst kv) = CanonicalHeaderKey k \<longrightarrow> kv = (k, v)) \<longrightarrow>
       Header_Get (storage_headers c p []) k = v)
   \<and> authToken c \<in> set (Header_values (storage_headers c p []) ''X-Auth-Token'')
   \<and> (storage_loop L p n rs c0 w rd = Inr (resp, c, w1, rd1) \<longrightarrow>
       (\<exists>pre rd'. log w1 = pre @ [Sent \<lparr>reqMethod = operation p, reqURL = storage_url L c p,
                                          reqHeader = storage_headers c p [], reqBody = rd'\<rparr>]))"
proof -
  have 1: "Header_values (storage_headers c p []) (CanonicalHeaderKey k) =
     map snd (filter (\<lambda>kv. CanonicalHeaderKey (fst kv) = CanonicalHeaderKey k) (headers p)) @
     (if CanonicalHeaderKey k = ''User-Agent'' then [DefaultUserAgent] else []) @
     (if CanonicalHeaderKey k = ''X-Auth-Token'' then [authToken c] else [])"
    by (rule storage_headers_values)
  have 2: "(k, v) \<in> set (headers p) \<and>
       (\<forall>kv \<in> set (headers p).
          CanonicalHeaderKey (fst kv) = CanonicalHeaderKey k \<longrightarrow> kv = (k, v)) \<longrightarrow>
       Header_Get (storage_headers c p []) k = v"
    using caller_header_first [of k v p c] by blast
  have 3: "authToken c \<in> set (Header_values (storage_headers c p []) ''X-Auth-Token'')"
    by (rule token_attached)
  have 4: "storage_loop L p n rs c0 w rd = Inr (resp, c, w1, rd1) \<longrightarrow>
       (\<exists>pre rd'. log w1 = pre @ [Sent \<lparr>reqMethod = operation p, reqURL = storage_url L c p,
                                          reqHeader = storage_headers c p [], reqBody = rd'\<rparr>])"
    using storage_loop_Inr [of L p n rs c0 w rd resp c w1 rd1] by blast
  show ?thesis
    by (rule conjI [OF 1 conjI [OF 2 conjI [OF 3 4]]])
qed

theorem caller_headers_win_witness:
  "(''User-Agent'', ''mine/2.0'') \<in> set (headers (AccountUpdate_opts [(''User-Agent'', ''mine/2.0'')]))
   \<and> Header_Get (storage_headers conn0 (AccountUpdate_opts [(''User-Agent'', ''mine/2.0'')]) [])
        ''User-Agent'' = ''mine/2.0''
   \<and> Header_values (storage_headers conn0 (AccountUpdate_opts [(''User-Agent'', ''mine/2.0'')]) [])
        ''User-Agent'' = [''mine/2.0'', ''goswift/1.0'']
   \<and> storage_loop lib0 (AccountUpdate_opts [(''User-Agent'', ''mine/2.0'')]) (Retries conn0) None
        conn0 (world0 [(0, Inr (resp0 204 ''204 No Content'' []))]) None
       = Inr (resp0 204 ''204 No Content'' [], conn0,
              \<lparr>script = [], served = 1,
                 log = [Sent \<lparr>reqMethod = ''POST'', reqURL = ''https://store/v1/a'',
                               reqHeader = [(''User-Agent'', ''mine/2.0'', [''goswift/1.0'']),
                                            (''X-Auth-Token'', ''tok'', [])],
                               reqBody = None\<rparr>]\<rparr>, None)
   \<and> (\<exists>pre rd'.
         log \<lparr>script = [], served = 1,
              log = [Sent \<lparr>reqMethod = ''POST'', reqURL = ''https://store/v1/a'',
                            reqHeader = [(''User-Agent'', ''mine/2.0'', [''goswift/1.0'']),
                                         (''X-Auth-Token'', ''tok'', [])],
                            reqBody = None\<rparr>]\<rparr>
         = pre @ [Sent \<lparr>reqMethod = operation (AccountUpdate_opts [(''User-Agent'', ''mine/2.0'')]),
                         reqURL = storage_url lib0 conn0
                                    (AccountUpdate_opts [(''User-Agent'', ''mine/2.0'')]),
                         reqHeader = storage_headers conn0
                                       (AccountUpdate_opts [(''User-Agent'', ''mine/2.0'')]) [],
                         reqBody = rd'\<rparr>])"
proof -
  let ?p = "AccountUpdate_opts [(''User-Agent'', ''mine/2.0'')]"
  let ?w1 = "\<lparr>script = [], served = 1,
               log = [Sent \<lparr>reqMethod = ''POST'', reqURL = ''https://store/v1/a'',
                             reqHeader = [(''User-Agent'', ''mine/2.0'', [''goswift/1.0'']),
                                          (''X-Auth-Token'', ''tok'', [])],
                             reqBody = None\<rparr>]\<rparr>"
  have h1: "(''User-Agent'', ''mine/2.0'') \<in> set (headers ?p)"
    by code_simp
  have h2: "\<forall>kv \<in> set (headers ?p).
              CanonicalHeaderKey (fst kv) = CanonicalHeaderKey ''User-Agent'' \<longrightarrow>
              kv = (''User-Agent'', ''mine/2.0'')"
    by code_simp
  have l: "storage_loop lib0 ?p (Retries conn0) None conn0
             (world0 [(0, Inr (resp0 204 ''204 No Content'' []))]) None
           = Inr (resp0 204 ''204 No Content'' [], conn0, ?w1, None)"
    by code_simp
  note t = caller_headers_win [of conn0 ?p "''User-Agent''" "''mine/2.0''" lib0 "Retries conn0"
             None conn0 "world0 [(0, Inr (resp0 204 ''204 No Content'' []))]" None
             "resp0 204 ''204 No Content'' []" ?w1 None]
  have c1: "Header_Get (storage_headers conn0 ?p []) ''User-Agent'' = ''mine/2.0''"
    by (rule t [THEN conjunct2, THEN conjunct1, THEN mp, OF conjI [OF h1 h2]])
  have c2: "Header_values (storage_headers conn0 ?p []) ''User-Agent''
              = [''mine/2.0'', ''goswift/1.0'']"
    by code_simp
  have c3: "\<exists>pre rd'. log ?w1
         = pre @ [Sent \<lparr>reqMethod = operation ?p, reqURL = storage_url lib0 conn0 ?p,
                         reqHeader = storage_headers conn0 ?p [], reqBody = rd'\<rparr>]"
    by (rule t [THEN conjunct2, THEN conjunct2, THEN conjunct2, THEN mp, OF l])
  show ?thesis
    by (intro conjI h1 c1 c2 l c3)
qed

section \<open>The body of the response that is returned\<close>

text \<open>
  Claim C7, as the source has it. For every successfully classified response dispatched
  with \<open>noResponse\<close> set, the dispatcher closes the response body before it returns, and
  it returns the error of that close instead of the response when there is one; it reads
  nothing from the body. With the flag unset it returns the response with nothing done to
  its body since it was received: the stream is open, for the caller to read and close.
\<close>

theorem storage_response_body:
  assumes "storage_loop L p (if retries p = 0 then Retries c else retries p) None c w (body p)
             = Inr (resp, c1, w1, rd1)"
    and "parseHeaders resp (errorMap p) = None"
  shows "(noResponse p \<longrightarrow>
            storage L p c w =
              ((if cerr (Body resp) = None then (Some resp, Some (readHeaders resp), None)
                else (None, None, cerr (Body resp))),
               c1, emit (BodyClosed (bid (Body resp))) w1, rd1))
         \<and> (\<not> noResponse p \<longrightarrow>
              storage L p c w = ((Some resp, Some (readHeaders resp), None), c1, w1, rd1))
         \<and> (\<exists>pre req. log w1 = pre @ [Sent req])
         \<and> filter isBodyRead (log w1) = filter isBodyRead (log w)"
proof -
  note inv = storage_loop_Inr [OF assms(1)]
  have a: "noResponse p \<longrightarrow>
            storage L p c w =
              ((if cerr (Body resp) = None then (Some resp, Some (readHeaders resp), None)
                else (None, None, cerr (Body resp))),
               c1, emit (BodyClosed (bid (Body resp))) w1, rd1)"
    using assms by (auto simp add: storage_def Let_def body_Close_def)
  have b: "\<not> noResponse p \<longrightarrow>
              storage L p c w = ((Some resp, Some (readHeaders resp), None), c1, w1, rd1)"
    using assms by (simp add: storage_def Let_def)
  from inv have c: "\<exists>pre req. log w1 = pre @ [Sent req]"
    by blast
  from inv have d: "filter isBodyRead (log w1) = filter isBodyRead (log w)"
    by blast
  show ?thesis
    by (rule conjI [OF a conjI [OF b conjI [OF c d]]])
qed

theorem storage_response_body_witness:
  "storage_loop lib0 Account_opts
       (if retries Account_opts = 0 then Retries conn0 else retries Account_opts) None conn0
       (world0 [(0, Inr resp_hello)]) (body Account_opts)
     = Inr (resp_hello, conn0, sent0 ''HEAD'' ''https://store/v1/a'' [], None)
   \<and> parseHeaders resp_hello (errorMap Account_opts) = None
   \<and> noResponse Account_opts
   \<and> storage lib0 Account_opts conn0 (world0 [(0, Inr resp_hello)])
     = ((if cerr (Body resp_hello) = None then (Some resp_hello, Some (readHeaders resp_hello), None)
         else (None, None, cerr (Body resp_hello))),
        conn0, emit (BodyClosed (bid (Body resp_hello))) (sent0 ''HEAD'' ''https://store/v1/a'' []),
        None)
   \<and> storage_loop lib0 (ObjectGet_opts ''c'' ''o'' [])
       (if retries (ObjectGet_opts ''c'' ''o'' []) = 0 then Retries conn0
        else retries (ObjectGet_opts ''c'' ''o'' [])) None conn0
       (world0 [(0, Inr resp_hello)]) (body (ObjectGet_opts ''c'' ''o'' []))
     = Inr (resp_hello, conn0, sent0 ''GET'' ''https://store/v1/a/c/o'' [], None)
   \<and> parseHeaders resp_hello (errorMap (ObjectGet_opts ''c'' ''o'' [])) = None
   \<and> \<not> noResponse (ObjectGet_opts ''c'' ''o'' [])
   \<and> storage lib0 (ObjectGet_opts ''c'' ''o'' []) conn0 (world0 [(0, Inr resp_hello)])
     = ((Some resp_hello, Some (readHeaders resp_hello), None), conn0,
        sent0 ''GET'' ''https://store/v1/a/c/o'' [], None)"
proof -
  let ?w = "world0 [(0, Inr resp_hello)]"
  let ?g = "ObjectGet_opts ''c'' ''o'' []"
  have l1: "storage_loop lib0 Account_opts
              (if retries Account_opts = 0 then Retries conn0 else retries Account_opts) None conn0
              ?w (body Account_opts)
            = Inr (resp_hello, conn0, sent0 ''HEAD'' ''https://store/v1/a'' [], None)"
    by code_simp
  have p1: "parseHeaders resp_hello (errorMap Account_opts) = None"
    by code_simp
  have n1: "noResponse Account_opts"
    by code_simp
  have l2: "storage_loop lib0 ?g (if retries ?g = 0 then Retries conn0 else retries ?g) None conn0
              ?w (body ?g)
            = Inr (resp_hello, conn0, sent0 ''GET'' ''https://store/v1/a/c/o'' [], None)"
    by code_simp
  have p2: "parseHeaders resp_hello (errorMap ?g) = None"
    by code_simp
  have n2: "\<not> noResponse ?g"
    by code_simp
  have c1: "storage lib0 Account_opts conn0 ?w
     = ((if cerr (Body resp_hello) = None then (Some resp_hello, Some (readHeaders resp_hello), None)
         else (None, None, cerr (Body resp_hello))),
        conn0, emit (BodyClosed (bid (Body resp_hello))) (sent0 ''HEAD'' ''https://store/v1/a'' []),
        None)"
    by (rule storage_response_body [OF l1 p1, THEN conjunct1, THEN mp, OF n1])
  have c2: "storage lib0 ?g conn0 ?w
     = ((Some resp_hello, Some (readHeaders resp_hello), None), conn0,
        sent0 ''GET'' ''https://store/v1/a/c/o'' [], None)"
    by (rule storage_response_body [OF l2 p2, THEN conjunct2, THEN conjunct1, THEN mp, OF n2])
  show ?thesis
    by (intro conjI l1 p1 n1 c1 l2 p2 n2 c2)
qed

text \<open>
  The dispatcher does not drain the body: on a response whose body holds five bytes, with
  \<open>noResponse\<close> set, it sends the request and closes the body, and no read of it occurs.
\<close>

theorem storage_drain_counterexample:
  "noResponse Account_opts
   \<and> concat (chunks (Body resp_hello)) = ''hello''
   \<and> fst (storage lib0 Account_opts conn0 (world0 [(0, Inr resp_hello)]))
       = (Some resp_hello, Some [], None)
   \<and> log (fst (snd (snd (storage lib0 Account_opts conn0 (world0 [(0, Inr resp_hello)])))))
       = log (sent0 ''HEAD'' ''https://store/v1/a'' []) @ [BodyClosed 0]
   \<and> BodyRead 0 \<notin> set (log (fst (snd (snd (storage lib0 Account_opts conn0
                                               (world0 [(0, Inr resp_hello)]))))))"
  by code_simp

section \<open>An upload with a digest known beforehand\<close>

lemma ObjectPut_opts_Hash:
  assumes "Hash \<noteq> ''''"
  shows "ObjectPut_opts cont name contents checkHash Hash contentType h
           = ObjectPut_opts cont name contents False Hash contentType h"
    and "body (ObjectPut_opts cont name contents checkHash Hash contentType h)
           = Some (Reader contents)"
    and "map_of (headers (ObjectPut_opts cont name contents checkHash Hash contentType h)) ''Etag''
           = Some Hash"
  using assms
  by (simp_all add: ObjectPut_opts_def ObjectPut_headers_def opts0_def Let_def update_conv')

lemma ObjectPut_Hash:
  assumes "Hash \<noteq> ''''"
  shows "ObjectPut L cont name contents checkHash Hash contentType h c w =
           (case storage L (ObjectPut_opts cont name contents False Hash contentType h) c w of
              ((resp, hdrs, err), st) \<Rightarrow> Returns ((hdrs, err), st))"
proof -
  obtain resp hdrs err st where
    s: "storage L (ObjectPut_opts cont name contents False Hash contentType h) c w
          = ((resp, hdrs, err), st)"
    by (metis prod_cases3)
  show ?thesis
    unfolding ObjectPut_def
      ObjectPut_opts_Hash(1) [OF assms, of cont name contents checkHash contentType h] s
    using assms by (cases err) simp_all
qed

lemma Etag_sent:
  assumes "Hash \<noteq> ''''"
  shows "Hash \<in> set (Header_values
            (storage_headers c' (ObjectPut_opts cont name contents checkHash Hash contentType h) [])
            ''Etag'')"
proof -
  from mem_values [OF ObjectPut_opts_Hash(3) [OF assms]]
  show ?thesis
    unfolding storage_headers_values canon_consts by simp
qed

text \<open>The dispatcher does not use the digest function.\<close>

lemma NewRequest_md5: "NewRequest (L\<lparr>md5sum := f\<rparr>) = NewRequest L"
  by (intro ext) (simp add: NewRequest_def)

lemma storage_url_md5: "storage_url (L\<lparr>md5sum := f\<rparr>) = storage_url L"
  by (intro ext) (simp add: storage_url_def Let_def split: option.splits)

lemma Authenticate_md5: "Authenticate (L\<lparr>md5sum := f\<rparr>) = Authenticate L"
  by (intro ext) (simp only: Authenticate_def NewRequest_md5)

lemma storage_attempt_md5:
  "storage_attempt (L\<lparr>md5sum := f\<rparr>) p rs c w rd = storage_attempt L p rs c w rd"
  by (simp only: storage_attempt_def Authenticate_md5 NewRequest_md5 storage_url_md5)

lemma storage_loop_md5:
  "storage_loop (L\<lparr>md5sum := f\<rparr>) p n rs c w rd = storage_loop L p n rs c w rd"
proof (induction L p n rs c w rd rule: storage_loop.induct)
  case (1 L p n rs c w rd)
  have u1: "storage_loop (L\<lparr>md5sum := f\<rparr>) p n rs c w rd =
     (case storage_attempt L p rs c w rd of
        Inl out \<Rightarrow> Inl out
      | Inr (resp', c1, w1, rd1) \<Rightarrow>
          if StatusCode resp' = 401 \<and> n > 0
          then storage_loop (L\<lparr>md5sum := f\<rparr>) p (n - 1) (Some resp') (UnAuthenticate c1)
                 (snd (body_Close (Body resp') w1)) rd1
          else Inr (resp', c1, w1, rd1))"
    by (subst storage_loop.simps) (simp only: storage_attempt_md5)
  have u2: "storage_loop L p n rs c w rd =
     (case storage_attempt L p rs c w rd of
        Inl out \<Rightarrow> Inl out
      | Inr (resp', c1, w1, rd1) \<Rightarrow>
          if StatusCode resp' = 401 \<and> n > 0
          then storage_loop L p (n - 1) (Some resp') (UnAuthenticate c1)
                 (snd (body_Close (Body resp') w1)) rd1
          else Inr (resp', c1, w1, rd1))"
    by (rule storage_loop.simps)
  show ?case
  proof (cases "storage_attempt L p rs c w rd")
    case (Inl out)
    then show ?thesis
      unfolding u1 u2 by simp
  next
    case (Inr x)
    obtain resp' c' w' rd' where x: "x = (resp', c', w', rd')"
      by (cases x) auto
    show ?thesis
    proof (cases "StatusCode resp' = 401 \<and> n > 0")
      case True
      from "1.IH" [OF Inr, of resp' "(c', w', rd')" c' "(w', rd')" w' rd'] x True Inr
      show ?thesis
        unfolding u1 u2 by simp
    next
      case False
      with Inr x show ?thesis
        unfolding u1 u2 by auto
    qed
  qed
qed

lemma storage_md5: "storage (L\<lparr>md5sum := f\<rparr>) p c w = storage L p c w"
  by (simp add: storage_def storage_loop_md5)

lemma ObjectPut_md5:
  assumes "Hash \<noteq> ''''"
  shows "ObjectPut (L\<lparr>md5sum := f\<rparr>) cont name contents checkHash Hash contentType h c w
           = ObjectPut L cont name contents checkHash Hash contentType h c w"
  unfolding ObjectPut_Hash [OF assms] storage_md5 by (rule refl)

text \<open>
  Claim C8. For every call of \<open>ObjectPut\<close> with a non-empty \<open>Hash\<close>: the call is the
  call with \<open>checkHash\<close> false; the headers handed to the dispatcher map \<open>Etag\<close> to the
  hash, and the hash is among the values of \<open>Etag\<close> in the request the dispatcher builds;
  the body handed over is the caller's reader itself, not a tee into the hash; the
  result is the headers and the error of the dispatcher, whatever they are; and it is the
  same whatever the digest function is.
\<close>

theorem ObjectPut_precomputed_hash:
  assumes "Hash \<noteq> ''''"
  shows "ObjectPut L cont name contents checkHash Hash contentType h c w =
           (case storage L (ObjectPut_opts cont name contents False Hash contentType h) c w of
              ((resp, hdrs, err), st) \<Rightarrow> Returns ((hdrs, err), st))
     \<and> ObjectPut_opts cont name contents checkHash Hash contentType h
         = ObjectPut_opts cont name contents False Hash contentType h
     \<and> body (ObjectPut_opts cont name contents checkHash Hash contentType h)
         = Some (Reader contents)
     \<and> map_of (headers (ObjectPut_opts cont name contents checkHash Hash contentType h)) ''Etag''
         = Some Hash
     \<and> Hash \<in> set (Header_values
          (storage_headers c' (ObjectPut_opts cont name contents checkHash Hash contentType h) [])
          ''Etag'')
     \<and> ObjectPut (L\<lparr>md5sum := f\<rparr>) cont name contents checkHash Hash contentType h c w
         = ObjectPut L cont name contents checkHash Hash contentType h c w"
  by (intro conjI ObjectPut_Hash [OF assms] ObjectPut_opts_Hash [OF assms] Etag_sent [OF assms]
        ObjectPut_md5 [OF assms])

theorem ObjectPut_precomputed_hash_witness:
  "''d41d8cd98f00b204e9800998ecf8427e'' \<noteq> ''''
   \<and> ObjectPut lib0 ''c'' ''o'' ''data'' True ''d41d8cd98f00b204e9800998ecf8427e'' '''' [] conn0
       (world0 [(4, Inr (resp0 201 ''201 Created'' []))])
     = (case storage lib0
               (ObjectPut_opts ''c'' ''o'' ''data'' False ''d41d8cd98f00b204e9800998ecf8427e'' '''' [])
               conn0 (world0 [(4, Inr (resp0 201 ''201 Created'' []))]) of
          ((resp, hdrs, err), st) \<Rightarrow> Returns ((hdrs, err), st))
   \<and> ''d41d8cd98f00b204e9800998ecf8427e''
       \<in> set (Header_values
                (storage_headers conn0
                   (ObjectPut_opts ''c'' ''o'' ''data'' True ''d41d8cd98f00b204e9800998ecf8427e'' '''' [])
                   [])
                ''Etag'')
   \<and> fst (storage lib0
             (ObjectPut_opts ''c'' ''o'' ''data'' False ''d41d8cd98f00b204e9800998ecf8427e'' '''' [])
             conn0 (world0 [(4, Inr (resp0 201 ''201 Created'' []))]))
     = (Some (resp0 201 ''201 Created'' []), Some [], None)"
proof -
  let ?H = "''d41d8cd98f00b204e9800998ecf8427e''"
  have h: "?H \<noteq> ''''"
    by simp
  note t = ObjectPut_precomputed_hash [OF h, of lib0 "''c''" "''o''" "''data''" True "''''" "[]"
             conn0 "world0 [(4, Inr (resp0 201 ''201 Created'' []))]" conn0]
  have e: "fst (storage lib0 (ObjectPut_opts ''c'' ''o'' ''data'' False ?H '''' [])
                  conn0 (world0 [(4, Inr (resp0 201 ''201 Created'' []))]))
             = (Some (resp0 201 ''201 Created'' []), Some [], None)"
    by code_simp
  show ?thesis
    by (intro conjI h t [THEN conjunct1]
          t [THEN conjunct2, THEN conjunct2, THEN conjunct2, THEN conjunct2, THEN conjunct1] e)
qed

section \<open>Verification of a download\<close>

lemma ParseInt_50: "ParseInt ''50'' = (50, None)"
  by code_simp

text \<open>A copy that returns no error has moved the whole body into the sink and the hash.\<close>

lemma copy_loop_done:
  "copy_loop ck ps er written wr hsh = ((written', None), wr', hsh') \<Longrightarrow>
     er = None \<and> written' = written + int (length (concat ps)) \<and>
     buf wr' = buf wr @ concat ps \<and> (ck \<longrightarrow> hsh' = hsh @ concat ps)"
proof (induction ps arbitrary: written wr hsh)
  case Nil
  then show ?case
    by simp
next
  case (Cons p ps)
  show ?case
  proof (cases "length p > 0")
    case False
    with Cons.prems have "copy_loop ck ps er written wr hsh = ((written', None), wr', hsh')"
      by simp
    from Cons.IH [OF this] False show ?thesis
      by simp
  next
    case True
    obtain nw ew wr1 hsh1 where d: "dst_Write ck p wr hsh = ((nw, ew), wr1, hsh1)"
      by (metis prod_cases3 surj_pair)
    from Cons.prems True d have ew: "ew = None" and nw: "nw = length p"
      and rest: "copy_loop ck ps er (written + int nw) wr1 hsh1 = ((written', None), wr', hsh')"
      by (auto simp add: Let_def split: if_splits)
    from d ew nw have w1: "buf wr1 = buf wr @ p" and h1: "ck \<longrightarrow> hsh1 = hsh @ p"
      by (auto simp add: dst_Write_def writer_Write_def
            split: option.splits if_splits prod.splits)
    from Cons.IH [OF rest] w1 h1 nw show ?thesis
      by auto
  qed
qed

lemma io_Copy_done:
  assumes "io_Copy ck contents b w1 = ((written, None), contents', hsh, w2)"
  shows "rerr b = None" "written = int (length (concat (chunks b)))"
    "buf contents' = buf contents @ concat (chunks b)" "ck \<longrightarrow> hsh = concat (chunks b)"
    "w2 = emit (BodyRead (bid b)) w1"
proof -
  obtain res wr' h where c: "copy_loop ck (chunks b) (rerr b) 0 contents '''' = (res, wr', h)"
    by (metis prod_cases3)
  with assms have "res = (written, None)" "wr' = contents'" "h = hsh"
    and w: "w2 = emit (BodyRead (bid b)) w1"
    by (simp_all add: io_Copy_def)
  with c have "copy_loop ck (chunks b) (rerr b) 0 contents '''' = ((written, None), contents', hsh)"
    by simp
  from copy_loop_done [OF this] w
  show "rerr b = None" "written = int (length (concat (chunks b)))"
    "buf contents' = buf contents @ concat (chunks b)" "ck \<longrightarrow> hsh = concat (chunks b)"
    "w2 = emit (BodyRead (bid b)) w1"
    by simp_all
qed

lemma checkClose_Some: "fst (checkClose b (Some e) w) = Some e"
  by (simp add: checkClose_def body_Close_def)

lemma checkClose_None: "fst (checkClose b None w) = cerr b"
  by (simp add: checkClose_def body_Close_def)

lemma ObjectGet_after_copy:
  assumes "storage L (ObjectGet_opts cont name h) c w = ((Some resp, hdrs, None), c1, w1, rd1)"
    and "io_Copy ck contents (Body resp) w1 = ((written, cperr), contents', hsh, w2)"
  shows "ObjectGet L cont name contents ck h c w =
           Returns ((hdrs, fst (checkClose (Body resp)
                                  (ObjectGet_check L resp ck hsh written cperr) w2)),
                    contents', c1, emit (BodyClosed (bid (Body resp))) w2)"
  using assms by (simp add: ObjectGet_def checkClose_def body_Close_def split: prod.splits)

lemma ObjectGet_digest_mismatch:
  assumes "storage L (ObjectGet_opts cont name h) c w = ((Some resp, hdrs, None), c1, w1, rd1)"
    and "io_Copy True contents (Body resp) w1 = ((written, None), contents', hsh, w2)"
    and "ToLower L (Header_Get (Header resp) ''Etag'') \<noteq> hex (md5sum L hsh)"
  shows "ObjectGet L cont name contents True h c w =
           Returns ((hdrs, Some ObjectCorrupted), contents', c1,
                    emit (BodyClosed (bid (Body resp))) w2)"
  unfolding ObjectGet_after_copy [OF assms(1,2)] using assms(3)
  by (simp add: ObjectGet_check_def checkClose_Some)

lemma ObjectGet_length_mismatch:
  assumes "storage L (ObjectGet_opts cont name h) c w = ((Some resp, hdrs, None), c1, w1, rd1)"
    and "io_Copy True contents (Body resp) w1 = ((written, None), contents', hsh, w2)"
    and "Header_Get (Header resp) ''Content-Length'' \<noteq> ''''"
    and "ParseInt (Header_Get (Header resp) ''Content-Length'') = (n, None)"
    and "n \<noteq> written"
  shows "ObjectGet L cont name contents True h c w =
           Returns ((hdrs, Some ObjectCorrupted), contents', c1,
                    emit (BodyClosed (bid (Body resp))) w2)"
  unfolding ObjectGet_after_copy [OF assms(1,2)] using assms(3-5)
  by (simp add: ObjectGet_check_def checkClose_Some getInt64FromHeader_def Let_def)

lemma ObjectGet_match:
  assumes "storage L (ObjectGet_opts cont name h) c w = ((Some resp, hdrs, None), c1, w1, rd1)"
    and "io_Copy True contents (Body resp) w1 = ((written, None), contents', hsh, w2)"
    and "ToLower L (Header_Get (Header resp) ''Etag'') = hex (md5sum L hsh)"
    and "Header_Get (Header resp) ''Content-Length'' = '''' \<or>
         ParseInt (Header_Get (Header resp) ''Content-Length'') = (written, None)"
  shows "ObjectGet L cont name contents True h c w =
           Returns ((hdrs, cerr (Body resp)), contents', c1,
                    emit (BodyClosed (bid (Body resp))) w2)"
  unfolding ObjectGet_after_copy [OF assms(1,2)] using assms(3,4)
  by (auto simp add: ObjectGet_check_def checkClose_None getInt64FromHeader_def Let_def)

text \<open>
  Claim C9. For a download by \<open>ObjectGet\<close> with \<open>checkHash\<close> true, once the dispatcher
  has returned the response and the copy of the body has completed: the bytes fed to the
  hash are exactly the bytes written to the caller's sink, and their number is the count of
  the copy; a lower-cased \<open>Etag\<close> that differs from the lower-case hexadecimal MD5 digest
  of these bytes makes \<open>ObjectGet\<close> return \<open>ObjectCorrupted\<close>; so does a declared
  \<open>Content-Length\<close> that differs from the count; no request is sent again (the world
  only sees the read and the close of the body); a response that declares 50 and yields 40
  bytes returns \<open>ObjectCorrupted\<close>; and when both checks agree the result is that of
  closing the body.
\<close>

theorem ObjectGet_verifies:
  assumes "storage L (ObjectGet_opts cont name h) c w = ((Some resp, hdrs, None), c1, w1, rd1)"
    and "io_Copy True contents (Body resp) w1 = ((written, None), contents', hsh, w2)"
  shows "(hsh = concat (chunks (Body resp)) \<and> buf contents' = buf contents @ hsh \<and>
          written = int (length hsh) \<and> w2 = emit (BodyRead (bid (Body resp))) w1)
     \<and> (ToLower L (Header_Get (Header resp) ''Etag'') \<noteq> hex (md5sum L hsh) \<longrightarrow>
         ObjectGet L cont name contents True h c w =
           Returns ((hdrs, Some ObjectCorrupted), contents', c1,
                    emit (BodyClosed (bid (Body resp))) w2))
     \<and> (Header_Get (Header resp) ''Content-Length'' \<noteq> '''' \<and>
         ParseInt (Header_Get (Header resp) ''Content-Length'') = (n, None) \<and> n \<noteq> written \<longrightarrow>
         ObjectGet L cont name contents True h c w =
           Returns ((hdrs, Some ObjectCorrupted), contents', c1,
                    emit (BodyClosed (bid (Body resp))) w2))
     \<and> (Header_Get (Header resp) ''Content-Length'' = ''50'' \<and>
         length (concat (chunks (Body resp))) = 40 \<longrightarrow>
         ObjectGet L cont name contents True h c w =
           Returns ((hdrs, Some ObjectCorrupted), contents', c1,
                    emit (BodyClosed (bid (Body resp))) w2))
     \<and> (ToLower L (Header_Get (Header resp) ''Etag'') = hex (md5sum L hsh) \<and>
         (Header_Get (Header resp) ''Content-Length'' = '''' \<or>
          ParseInt (Header_Get (Header resp) ''Content-Length'') = (written, None)) \<longrightarrow>
         ObjectGet L cont name contents True h c w =
           Returns ((hdrs, cerr (Body resp)), contents', c1,
                    emit (BodyClosed (bid (Body resp))) w2))"
proof -
  note cp = io_Copy_done [OF assms(2)]
  have 1: "hsh = concat (chunks (Body resp)) \<and> buf contents' = buf contents @ hsh \<and>
         written = int (length hsh) \<and> w2 = emit (BodyRead (bid (Body resp))) w1"
    using cp by simp
  have 2: "ToLower L (Header_Get (Header resp) ''Etag'') \<noteq> hex (md5sum L hsh) \<longrightarrow>
         ObjectGet L cont name contents True h c w =
           Returns ((hdrs, Some ObjectCorrupted), contents', c1,
                    emit (BodyClosed (bid (Body resp))) w2)"
    using ObjectGet_digest_mismatch [OF assms] by blast
  have 3: "Header_Get (Header resp) ''Content-Length'' \<noteq> '''' \<and>
         ParseInt (Header_Get (Header resp) ''Content-Length'') = (n, None) \<and> n \<noteq> written \<longrightarrow>
         ObjectGet L cont name contents True h c w =
           Returns ((hdrs, Some ObjectCorrupted), contents', c1,
                    emit (BodyClosed (bid (Body resp))) w2)"
    using ObjectGet_length_mismatch [OF assms] by blast
  have 4: "Header_Get (Header resp) ''Content-Length'' = ''50'' \<and>
         length (concat (chunks (Body resp))) = 40 \<longrightarrow>
         ObjectGet L cont name contents True h c w =
           Returns ((hdrs, Some ObjectCorrupted), contents', c1,
                    emit (BodyClosed (bid (Body resp))) w2)"
  proof (intro impI, elim conjE)
    assume cl: "Header_Get (Header resp) ''Content-Length'' = ''50''"
      and len: "length (concat (chunks (Body resp))) = 40"
    from cl have a: "Header_Get (Header resp) ''Content-Length'' \<noteq> ''''"
      by simp
    from cl have b: "ParseInt (Header_Get (Header resp) ''Content-Length'') = (50, None)"
      by (simp only: ParseInt_50)
    from 1 len have "written = 40"
      by simp
    then have c: "50 \<noteq> written"
      by simp
    show "ObjectGet L cont name contents True h c w =
           Returns ((hdrs, Some ObjectCorrupted), contents', c1,
                    emit (BodyClosed (bid (Body resp))) w2)"
      by (rule ObjectGet_length_mismatch [OF assms a b c])
  qed
  have 5: "ToLower L (Header_Get (Header resp) ''Etag'') = hex (md5sum L hsh) \<and>
         (Header_Get (Header resp) ''Content-Length'' = '''' \<or>
          ParseInt (Header_Get (Header resp) ''Content-Length'') = (written, None)) \<longrightarrow>
         ObjectGet L cont name contents True h c w =
           Returns ((hdrs, cerr (Body resp)), contents', c1,
                    emit (BodyClosed (bid (Body resp))) w2)"
    using ObjectGet_match [OF assms] by blast
  show ?thesis
    by (rule conjI [OF 1 conjI [OF 2 conjI [OF 3 conjI [OF 4 5]]]])
qed

theorem ObjectGet_verifies_witness:
  "storage lib0 (ObjectGet_opts ''c'' ''o'' []) conn0 (world0 [(0, Inr (resp_get ''bad'' ''40''))])
     = ((Some (resp_get ''bad'' ''40''), Some (readHeaders (resp_get ''bad'' ''40'')), None),
        conn0, world_get, None)
   \<and> io_Copy True sink0 (Body (resp_get ''bad'' ''40'')) world_get
     = ((40, None), sink0\<lparr>buf := data40\<rparr>, data40, emit (BodyRead 0) world_get)
   \<and> ToLower lib0 (Header_Get (Header (resp_get ''bad'' ''40'')) ''Etag'') \<noteq> hex (md5sum lib0 data40)
   \<and> ObjectGet lib0 ''c'' ''o'' sink0 True [] conn0 (world0 [(0, Inr (resp_get ''bad'' ''40''))])
     = Returns ((Some (readHeaders (resp_get ''bad'' ''40'')), Some ObjectCorrupted),
                sink0\<lparr>buf := data40\<rparr>, conn0,
                emit (BodyClosed (bid (Body (resp_get ''bad'' ''40''))))
                  (emit (BodyRead 0) world_get))
   \<and> storage lib0 (ObjectGet_opts ''c'' ''o'' []) conn0 (world0 [(0, Inr (resp_get etag40 ''50''))])
     = ((Some (resp_get etag40 ''50''), Some (readHeaders (resp_get etag40 ''50'')), None),
        conn0, world_get, None)
   \<and> io_Copy True sink0 (Body (resp_get etag40 ''50'')) world_get
     = ((40, None), sink0\<lparr>buf := data40\<rparr>, data40, emit (BodyRead 0) world_get)
   \<and> Header_Get (Header (resp_get etag40 ''50'')) ''Content-Length'' = ''50''
   \<and> length (concat (chunks (Body (resp_get etag40 ''50'')))) = 40
   \<and> Header_Get (Header (resp_get etag40 ''50'')) ''Content-Length'' \<noteq> ''''
   \<and> ParseInt (Header_Get (Header (resp_get etag40 ''50'')) ''Content-Length'') = (50, None)
   \<and> (50 :: int) \<noteq> 40
   \<and> ObjectGet lib0 ''c'' ''o'' sink0 True [] conn0 (world0 [(0, Inr (resp_get etag40 ''50''))])
     = Returns ((Some (readHeaders (resp_get etag40 ''50'')), Some ObjectCorrupted),
                sink0\<lparr>buf := data40\<rparr>, conn0,
                emit (BodyClosed (bid (Body (resp_get etag40 ''50''))))
                  (emit (BodyRead 0) world_get))
   \<and> storage lib0 (ObjectGet_opts ''c'' ''o'' []) conn0 (world0 [(0, Inr (resp_get etag40 ''40''))])
     = ((Some (resp_get etag40 ''40''), Some (readHeaders (resp_get etag40 ''40'')), None),
        conn0, world_get, None)
   \<and> io_Copy True sink0 (Body (resp_get etag40 ''40'')) world_get
     = ((40, None), sink0\<lparr>buf := data40\<rparr>, data40, emit (BodyRead 0) world_get)
   \<and> ToLower lib0 (Header_Get (Header (resp_get etag40 ''40'')) ''Etag'') = hex (md5sum lib0 data40)
   \<and> ParseInt (Header_Get (Header (resp_get etag40 ''40'')) ''Content-Length'') = (40, None)
   \<and> ObjectGet lib0 ''c'' ''o'' sink0 True [] conn0 (world0 [(0, Inr (resp_get etag40 ''40''))])
     = Returns ((Some (readHeaders (resp_get etag40 ''40'')), cerr (Body (resp_get etag40 ''40''))),
                sink0\<lparr>buf := data40\<rparr>, conn0,
                emit (BodyClosed (bid (Body (resp_get etag40 ''40''))))
                  (emit (BodyRead 0) world_get))
   \<and> data40 = concat (chunks (Body (resp_get etag40 ''40'')))
   \<and> buf (sink0\<lparr>buf := data40\<rparr>) = buf sink0 @ data40
   \<and> (40 :: int) = int (length data40)"
proof -
  let ?g = "ObjectGet_opts ''c'' ''o'' []"
  let ?b = "resp_get ''bad'' ''40''"
  let ?s = "resp_get etag40 ''50''"
  let ?k = "resp_get etag40 ''40''"
  have sb: "storage lib0 ?g conn0 (world0 [(0, Inr ?b)])
              = ((Some ?b, Some (readHeaders ?b), None), conn0, world_get, None)"
    by code_simp
  have ib: "io_Copy True sink0 (Body ?b) world_get
              = ((40, None), sink0\<lparr>buf := data40\<rparr>, data40, emit (BodyRead 0) world_get)"
    by code_simp
  have eb: "ToLower lib0 (Header_Get (Header ?b) ''Etag'') \<noteq> hex (md5sum lib0 data40)"
    by code_simp
  have ss: "storage lib0 ?g conn0 (world0 [(0, Inr ?s)])
              = ((Some ?s, Some (readHeaders ?s), None), conn0, world_get, None)"
    by code_simp
  have js: "io_Copy True sink0 (Body ?s) world_get
              = ((40, None), sink0\<lparr>buf := data40\<rparr>, data40, emit (BodyRead 0) world_get)"
    by code_simp
  have ls: "Header_Get (Header ?s) ''Content-Length'' = ''50''"
    by code_simp
  have ns: "length (concat (chunks (Body ?s))) = 40"
    by code_simp
  have ls': "Header_Get (Header ?s) ''Content-Length'' \<noteq> ''''"
    by code_simp
  have ps: "ParseInt (Header_Get (Header ?s) ''Content-Length'') = (50, None)"
    by code_simp
  have ne: "(50 :: int) \<noteq> 40"
    by simp
  have sk: "storage lib0 ?g conn0 (world0 [(0, Inr ?k)])
              = ((Some ?k, Some (readHeaders ?k), None), conn0, world_get, None)"
    by code_simp
  have ik: "io_Copy True sink0 (Body ?k) world_get
              = ((40, None), sink0\<lparr>buf := data40\<rparr>, data40, emit (BodyRead 0) world_get)"
    by code_simp
  have ek: "ToLower lib0 (Header_Get (Header ?k) ''Etag'') = hex (md5sum lib0 data40)"
    by code_simp
  have pk: "ParseInt (Header_Get (Header ?k) ''Content-Length'') = (40, None)"
    by code_simp
  note tb = ObjectGet_verifies [OF sb ib]
  note ts = ObjectGet_verifies [OF ss js, where n = 50]
  note tk = ObjectGet_verifies [OF sk ik]
  have c1: "ObjectGet lib0 ''c'' ''o'' sink0 True [] conn0 (world0 [(0, Inr ?b)])
     = Returns ((Some (readHeaders ?b), Some ObjectCorrupted), sink0\<lparr>buf := data40\<rparr>, conn0,
                emit (BodyClosed (bid (Body ?b))) (emit (BodyRead 0) world_get))"
    by (rule tb [THEN conjunct2, THEN conjunct1, THEN mp, OF eb])
  have c2: "ObjectGet lib0 ''c'' ''o'' sink0 True [] conn0 (world0 [(0, Inr ?s)])
     = Returns ((Some (readHeaders ?s), Some ObjectCorrupted), sink0\<lparr>buf := data40\<rparr>, conn0,
                emit (BodyClosed (bid (Body ?s))) (emit (BodyRead 0) world_get))"
    by (rule ts [THEN conjunct2, THEN conjunct2, THEN conjunct1, THEN mp,
                 OF conjI [OF ls' conjI [OF ps ne]]])
  have c3: "ObjectGet lib0 ''c'' ''o'' sink0 True [] conn0 (world0 [(0, Inr ?s)])
     = Returns ((Some (readHeaders ?s), Some ObjectCorrupted), sink0\<lparr>buf := data40\<rparr>, conn0,
                emit (BodyClosed (bid (Body ?s))) (emit (BodyRead 0) world_get))"
    by (rule ts [THEN conjunct2, THEN conjunct2, THEN conjunct2, THEN conjunct1, THEN mp,
                 OF conjI [OF ls ns]])
  have c4: "ObjectGet lib0 ''c'' ''o'' sink0 True [] conn0 (world0 [(0, Inr ?k)])
     = Returns ((Some (readHeaders ?k), cerr (Body ?k)), sink0\<lparr>buf := data40\<rparr>, conn0,
                emit (BodyClosed (bid (Body ?k))) (emit (BodyRead 0) world_get))"
    by (rule tk [THEN conjunct2, THEN conjunct2, THEN conjunct2, THEN conjunct2, THEN mp,
                 OF conjI [OF ek disjI2 [OF pk]]])
  from tk [THEN conjunct1]
  have c5: "data40 = concat (chunks (Body ?k))"
    and c6: "buf (sink0\<lparr>buf := data40\<rparr>) = buf sink0 @ data40"
    and c7: "(40 :: int) = int (length data40)"
    by blast+
  show ?thesis
    by (intro conjI sb ib eb c1 ss js ls ns ls' ps ne c3 sk ik ek pk c4 c5 c6 c7)
qed

section \<open>Account operations and the container table\<close>

lemma Account_error:
  assumes "storage_loop L Account_opts (Retries c) None c w None = Inr (resp, c1, w1, rd1)"
    and "parseHeaders resp (Some containerErrorMap) = Some e"
  shows "Account L c w =
           Returns ((\<lparr>BytesUsed = 0, Containers = 0, Objects = 0\<rparr>, None, Some e),
                    c1, snd (body_Close (Body resp) w1))"
  using assms storage_of_loop_error [of L Account_opts c w resp c1 w1 rd1 e]
  by (simp add: Account_def Account_opts_simps)

lemma AccountUpdate_error:
  assumes "storage_loop L (AccountUpdate_opts h) (Retries c) None c w None
             = Inr (resp, c1, w1, rd1)"
    and "parseHeaders resp (Some containerErrorMap) = Some e"
  shows "AccountUpdate L h c w = (Some e, c1, snd (body_Close (Body resp) w1))"
  using assms storage_of_loop_error [of L "AccountUpdate_opts h" c w resp c1 w1 rd1 e]
  by (simp add: AccountUpdate_def AccountUpdate_opts_simps)

text \<open>
  Claim C10. \<open>Account\<close> and \<open>AccountUpdate\<close> classify through the container table:
  when the dispatcher ends on a response of status 404 the error they return is
  \<open>ContainerNotFound\<close>, and on status 409 it is \<open>ContainerNotEmpty\<close>.
\<close>

theorem account_operations_use_container_table:
  "errorMap Account_opts = Some containerErrorMap
   \<and> errorMap (AccountUpdate_opts h) = Some containerErrorMap
   \<and> (storage_loop L Account_opts (Retries c) None c w None = Inr (resp, c1, w1, rd1) \<longrightarrow>
        (StatusCode resp = 404 \<longrightarrow>
           Account L c w =
             Returns ((\<lparr>BytesUsed = 0, Containers = 0, Objects = 0\<rparr>, None, Some ContainerNotFound),
                      c1, snd (body_Close (Body resp) w1))) \<and>
        (StatusCode resp = 409 \<longrightarrow>
           Account L c w =
             Returns ((\<lparr>BytesUsed = 0, Containers = 0, Objects = 0\<rparr>, None, Some ContainerNotEmpty),
                      c1, snd (body_Close (Body resp) w1))))
   \<and> (storage_loop L (AccountUpdate_opts h) (Retries c) None c w None
         = Inr (resp', c1', w1', rd1') \<longrightarrow>
        (StatusCode resp' = 404 \<longrightarrow>
           AccountUpdate L h c w
             = (Some ContainerNotFound, c1', snd (body_Close (Body resp') w1'))) \<and>
        (StatusCode resp' = 409 \<longrightarrow>
           AccountUpdate L h c w
             = (Some ContainerNotEmpty, c1', snd (body_Close (Body resp') w1'))))"
  using Account_error AccountUpdate_error container_table
  by (simp add: Account_opts_simps AccountUpdate_opts_simps)

theorem account_operations_use_container_table_witness:
  "storage_loop lib0 Account_opts (Retries conn0) None conn0
       (world0 [(0, Inr (resp0 404 ''404 Not Found'' []))]) None
     = Inr (resp0 404 ''404 Not Found'' [], conn0, sent0 ''HEAD'' ''https://store/v1/a'' [], None)
   \<and> StatusCode (resp0 404 ''404 Not Found'' []) = 404
   \<and> Account lib0 conn0 (world0 [(0, Inr (resp0 404 ''404 Not Found'' []))])
     = Returns ((\<lparr>BytesUsed = 0, Containers = 0, Objects = 0\<rparr>, None, Some ContainerNotFound),
                conn0,
                snd (body_Close (Body (resp0 404 ''404 Not Found'' []))
                       (sent0 ''HEAD'' ''https://store/v1/a'' [])))
   \<and> storage_loop lib0 Account_opts (Retries conn0) None conn0
       (world0 [(0, Inr (resp0 409 ''409 Conflict'' []))]) None
     = Inr (resp0 409 ''409 Conflict'' [], conn0, sent0 ''HEAD'' ''https://store/v1/a'' [], None)
   \<and> StatusCode (resp0 409 ''409 Conflict'' []) = 409
   \<and> Account lib0 conn0 (world0 [(0, Inr (resp0 409 ''409 Conflict'' []))])
     = Returns ((\<lparr>BytesUsed = 0, Containers = 0, Objects = 0\<rparr>, None, Some ContainerNotEmpty),
                conn0,
                snd (body_Close (Body (resp0 409 ''409 Conflict'' []))
                       (sent0 ''HEAD'' ''https://store/v1/a'' [])))
   \<and> storage_loop lib0 (AccountUpdate_opts [(''X-Account-Meta-Colour'', ''red'')])
       (Retries conn0) None conn0 (world0 [(0, Inr (resp0 404 ''404 Not Found'' []))]) None
     = Inr (resp0 404 ''404 Not Found'' [], conn0,
            sent0 ''POST'' ''https://store/v1/a'' [(''X-Account-Meta-Colour'', ''red'', [])], None)
   \<and> AccountUpdate lib0 [(''X-Account-Meta-Colour'', ''red'')] conn0
       (world0 [(0, Inr (resp0 404 ''404 Not Found'' []))])
     = (Some ContainerNotFound, conn0,
        snd (body_Close (Body (resp0 404 ''404 Not Found'' []))
               (sent0 ''POST'' ''https://store/v1/a'' [(''X-Account-Meta-Colour'', ''red'', [])])))
   \<and> storage_loop lib0 (AccountUpdate_opts [(''X-Account-Meta-Colour'', ''red'')])
       (Retries conn0) None conn0 (world0 [(0, Inr (resp0 409 ''409 Conflict'' []))]) None
     = Inr (resp0 409 ''409 Conflict'' [], conn0,
            sent0 ''POST'' ''https://store/v1/a'' [(''X-Account-Meta-Colour'', ''red'', [])], None)
   \<and> AccountUpdate lib0 [(''X-Account-Meta-Colour'', ''red'')] conn0
       (world0 [(0, Inr (resp0 409 ''409 Conflict'' []))])
     = (Some ContainerNotEmpty, conn0,
        snd (body_Close (Body (resp0 409 ''409 Conflict'' []))
               (sent0 ''POST'' ''https://store/v1/a'' [(''X-Account-Meta-Colour'', ''red'', [])])))"
proof -
  let ?r4 = "resp0 404 ''404 Not Found'' []"
  let ?r9 = "resp0 409 ''409 Conflict'' []"
  let ?h = "[(''X-Account-Meta-Colour'', ''red'')]"
  have s4: "StatusCode ?r4 = 404" and s9: "StatusCode ?r9 = 409"
    by (simp_all add: resp0_def)
  have a4: "storage_loop lib0 Account_opts (Retries conn0) None conn0 (world0 [(0, Inr ?r4)]) None
              = Inr (?r4, conn0, sent0 ''HEAD'' ''https://store/v1/a'' [], None)"
    by code_simp
  have a9: "storage_loop lib0 Account_opts (Retries conn0) None conn0 (world0 [(0, Inr ?r9)]) None
              = Inr (?r9, conn0, sent0 ''HEAD'' ''https://store/v1/a'' [], None)"
    by code_simp
  have u4: "storage_loop lib0 (AccountUpdate_opts ?h) (Retries conn0) None conn0
              (world0 [(0, Inr ?r4)]) None
              = Inr (?r4, conn0,
                     sent0 ''POST'' ''https://store/v1/a'' [(''X-Account-Meta-Colour'', ''red'', [])],
                     None)"
    by code_simp
  have u9: "storage_loop lib0 (AccountUpdate_opts ?h) (Retries conn0) None conn0
              (world0 [(0, Inr ?r9)]) None
              = Inr (?r9, conn0,
                     sent0 ''POST'' ''https://store/v1/a'' [(''X-Account-Meta-Colour'', ''red'', [])],
                     None)"
    by code_simp
  note acc = account_operations_use_container_table [THEN conjunct2, THEN conjunct2, THEN conjunct1, THEN mp]
  note upd = account_operations_use_container_table [THEN conjunct2, THEN conjunct2, THEN conjunct2, THEN mp]
  have c1: "Account lib0 conn0 (world0 [(0, Inr ?r4)])
     = Returns ((\<lparr>BytesUsed = 0, Containers = 0, Objects = 0\<rparr>, None, Some ContainerNotFound),
                conn0, snd (body_Close (Body ?r4) (sent0 ''HEAD'' ''https://store/v1/a'' [])))"
    by (rule acc [OF a4, THEN conjunct1, THEN mp, OF s4])
  have c2: "Account lib0 conn0 (world0 [(0, Inr ?r9)])
     = Returns ((\<lparr>BytesUsed = 0, Containers = 0, Objects = 0\<rparr>, None, Some ContainerNotEmpty),
                conn0, snd (body_Close (Body ?r9) (sent0 ''HEAD'' ''https://store/v1/a'' [])))"
    by (rule acc [OF a9, THEN conjunct2, THEN mp, OF s9])
  have c3: "AccountUpdate lib0 ?h conn0 (world0 [(0, Inr ?r4)])
     = (Some ContainerNotFound, conn0,
        snd (body_Close (Body ?r4)
               (sent0 ''POST'' ''https://store/v1/a'' [(''X-Account-Meta-Colour'', ''red'', [])])))"
    by (rule upd [OF u4, THEN conjunct1, THEN mp, OF s4])
  have c4: "AccountUpdate lib0 ?h conn0 (world0 [(0, Inr ?r9)])
     = (Some ContainerNotEmpty, conn0,
        snd (body_Close (Body ?r9)
               (sent0 ''POST'' ''https://store/v1/a'' [(''X-Account-Meta-Colour'', ''red'', [])])))"
    by (rule upd [OF u9, THEN conjunct2, THEN mp, OF s9])
  show ?thesis
    by (intro conjI a4 s4 c1 a9 s9 c2 u4 c3 u9 c4)
qed

end
